theory Spec2Isabelle
  imports Main
begin

section \<open>Strings\<close>

text \<open>
  A JavaScript string is modelled as a \<^typ>\<open>string\<close>: a list of code units below 256.
  Every URL path name the handler reads is of that kind (the URL parser percent-encodes
  everything outside ASCII), and so is every literal of the source. The validators are
  exported and can be given any string; what is proved of them below is about strings
  of code units below 256, the range the two character classes of the source speak of.
  \<open>charCode\<close> reads the code unit of a character.
\<close>

definition charCode :: "char \<Rightarrow> nat" where
  "charCode c = of_char c"

text \<open>\<^verbatim>\<open>s.startsWith(p)\<close>, \<^verbatim>\<open>s.endsWith(p)\<close> and \<^verbatim>\<open>s.includes(p)\<close>.\<close>

definition startsWith :: "string \<Rightarrow> string \<Rightarrow> bool" where
  "startsWith s p = (take (length p) s = p)"

definition endsWith :: "string \<Rightarrow> string \<Rightarrow> bool" where
  "endsWith s p = (length p \<le> length s \<and> drop (length s - length p) s = p)"

fun str_includes :: "string \<Rightarrow> string \<Rightarrow> bool" where
  "str_includes [] p = (p = [])"
| "str_includes (c # cs) p = (startsWith (c # cs) p \<or> str_includes cs p)"

text \<open>
  \<^verbatim>\<open>s.split(d)\<close> for a one-character separator: the pieces between the separators,
  never an empty array.
\<close>

fun split_on :: "char \<Rightarrow> string \<Rightarrow> string list" where
  "split_on d [] = [[]]"
| "split_on d (c # cs) =
     (if c = d then [] # split_on d cs
      else (c # hd (split_on d cs)) # tl (split_on d cs))"

text \<open>\<^verbatim>\<open>xs.join(sep)\<close>.\<close>

fun join :: "string \<Rightarrow> string list \<Rightarrow> string" where
  "join sep [] = []"
| "join sep [x] = x"
| "join sep (x # y # ys) = x @ sep @ join sep (y # ys)"

text \<open>
  \<^verbatim>\<open>s.toLowerCase()\<close> on code units below 256: the letters \<open>A\<close> to \<open>Z\<close> and the
  Latin-1 capitals 0xC0 to 0xDE (0xD7, the multiplication sign, apart) move up by 32;
  nothing else changes. \<^verbatim>\<open>s.toUpperCase()\<close> is needed for the request method only,
  which is an HTTP token, hence ASCII: \<open>a\<close> to \<open>z\<close> move down by 32.
\<close>

definition lowerChar :: "char \<Rightarrow> char" where
  "lowerChar c =
     (let n = charCode c in
      if (0x41 \<le> n \<and> n \<le> 0x5A) \<or> (0xC0 \<le> n \<and> n \<le> 0xDE \<and> n \<noteq> 0xD7)
      then char_of (n + 32) else c)"

definition toLowerCase :: "string \<Rightarrow> string" where
  "toLowerCase s = map lowerChar s"

definition upperChar :: "char \<Rightarrow> char" where
  "upperChar c =
     (let n = charCode c in
      if 0x61 \<le> n \<and> n \<le> 0x7A then char_of (n - 32) else c)"

definition toUpperCase :: "string \<Rightarrow> string" where
  "toUpperCase s = map upperChar s"

text \<open>
  The characters the regular expression atom \<^verbatim>\<open>.\<close> does not match: the line
  terminators. Below 256 these are line feed and carriage return.
\<close>

definition lineTerminator :: "char \<Rightarrow> bool" where
  "lineTerminator c = (charCode c = 0x0A \<or> charCode c = 0x0D)"

section \<open>Validators (types.ts)\<close>

text \<open>
  \<^verbatim>\<open>SKILL_NAME_PATTERN = /^(?!-)(?!.*--)[a-z0-9-]{1,64}(?<!-)$/\<close>

  The pattern is anchored at the start, so the only match position is 0. There:
  \<^item> \<^verbatim>\<open>(?!-)\<close>: the input does not start with a hyphen;
  \<^item> \<^verbatim>\<open>(?!.*--)\<close>: no two hyphens follow a run of characters matched by \<^verbatim>\<open>.\<close>,
    that is, \<open>--\<close> does not occur before the first line terminator;
  \<^item> \<^verbatim>\<open>[a-z0-9-]{1,64}\<close> takes some number \<open>k\<close> of characters of the class, with
    \<open>1 \<le> k \<le> 64\<close> and \<open>k\<close> at most the length of the leading run of class characters;
  \<^item> \<^verbatim>\<open>(?<!-)\<close>: the character before position \<open>k\<close> is not a hyphen;
  \<^item> \<^verbatim>\<open>$\<close>: position \<open>k\<close> is the end of the input.
  The matcher backtracks over \<open>k\<close>; \<open>skillNameLengths\<close> lists its candidates.
\<close>

definition nameClass :: "char \<Rightarrow> bool" where
  "nameClass c =
     (let n = charCode c in
      (0x61 \<le> n \<and> n \<le> 0x7A) \<or> (0x30 \<le> n \<and> n \<le> 0x39) \<or> c = CHR ''-'')"

definition skillNameLengths :: "string \<Rightarrow> nat list" where
  "skillNameLengths s = [1 ..< Suc (min 64 (length (takeWhile nameClass s)))]"

definition SKILL_NAME_PATTERN_test :: "string \<Rightarrow> bool" where
  "SKILL_NAME_PATTERN_test s =
     (\<not> startsWith s ''-'' \<and>
      \<not> str_includes (takeWhile (\<lambda>c. \<not> lineTerminator c) s) ''--'' \<and>
      list_ex (\<lambda>k. s ! (k - 1) \<noteq> CHR ''-'' \<and> k = length s) (skillNameLengths s))"

definition isValidSkillName :: "string \<Rightarrow> bool" where
  "isValidSkillName name = SKILL_NAME_PATTERN_test name"

text \<open>
  \<^verbatim>\<open>isValidFilePath\<close>: four early returns, then the test of
  \<^verbatim>\<open>/[?#\[\]\x00-\x1f\x7f-\xff]/\<close>, which succeeds as soon as one character of the
  input is in the class.
\<close>

definition invalidChar :: "char \<Rightarrow> bool" where
  "invalidChar c =
     (let n = charCode c in
      c = CHR ''?'' \<or> c = CHR ''#'' \<or> c = CHR ''['' \<or> c = CHR '']'' \<or>
      n \<le> 0x1F \<or> (0x7F \<le> n \<and> n \<le> 0xFF))"

definition isValidFilePath :: "string \<Rightarrow> bool" where
  "isValidFilePath path =
     (if path = [] \<or> length path = 0 then False
      else if startsWith path ''/'' then False
      else if str_includes path ''..'' then False
      else if str_includes path [CHR 0x5C] then False
      else if list_ex invalidChar path then False
      else True)"

section \<open>Data model (types.ts)\<close>

text \<open>
  \<^verbatim>\<open>Skill\<close> is a record; TypeScript's structural typing lets a skill carry further
  fields, as an extensible record does.
\<close>

record skill =
  name :: string
  description :: string
  body :: string
  files :: "string list"

text \<open>
  A value that is thrown or that a promise rejects with:
  \<^item> an \<^verbatim>\<open>Error\<close> object with its message;
  \<^item> a \<^verbatim>\<open>TypeError\<close> raised by the platform (by \<^verbatim>\<open>new Headers\<close> or \<^verbatim>\<open>new URL\<close>), an
    \<^verbatim>\<open>Error\<close> object whose message the platform chooses;
  \<^item> any other value that \<^verbatim>\<open>String(value)\<close> converts, given by the string;
  \<^item> any other value that \<^verbatim>\<open>String(value)\<close> does not convert (an object without
    \<^verbatim>\<open>toString\<close>, or one whose \<^verbatim>\<open>toString\<close> throws), given by what the conversion throws.

  \<open>asError\<close> is \<^verbatim>\<open>error instanceof Error ? error : new Error(String(error))\<close>, an
  expression that throws when the conversion does.
\<close>

datatype thrown = ErrorObject string | TypeError | OtherValue string | Unprintable thrown

fun asError :: "thrown \<Rightarrow> thrown + thrown" where
  "asError (ErrorObject m) = Inr (ErrorObject m)"
| "asError TypeError = Inr TypeError"
| "asError (OtherValue v) = Inr (ErrorObject v)"
| "asError (Unprintable t) = Inl t"

text \<open>
  A provider at the time of one request: what each of its two operations returns
  (\<open>Inr\<close>) or throws (\<open>Inl\<close>). \<open>None\<close> is \<^verbatim>\<open>null\<close>.
\<close>

record 'a provider =
  getSkills :: "thrown + 'a skill_scheme list"
  getSkillFile :: "string \<Rightarrow> string \<Rightarrow> thrown + string option"

text \<open>
  The events, as \<^verbatim>\<open>emitEvent\<close> receives them. The first argument is always
  \<^verbatim>\<open>path\<close>. \<^verbatim>\<open>NOT_FOUND\<close> has the optional \<^verbatim>\<open>skillName\<close> and \<^verbatim>\<open>filePath\<close>; \<^verbatim>\<open>ERROR\<close>
  has the error and the optional \<^verbatim>\<open>context\<close> object.
\<close>

datatype event =
  INDEX_REQUESTED string nat
| SKILL_REQUESTED string string
| FILE_REQUESTED string string string
| NOT_FOUND string "string option" "string option"
| ERROR string thrown "(string \<times> string) list option"

fun eventType :: "event \<Rightarrow> string" where
  "eventType (INDEX_REQUESTED _ _) = ''INDEX_REQUESTED''"
| "eventType (SKILL_REQUESTED _ _) = ''SKILL_REQUESTED''"
| "eventType (FILE_REQUESTED _ _ _) = ''FILE_REQUESTED''"
| "eventType (NOT_FOUND _ _ _) = ''NOT_FOUND''"
| "eventType (ERROR _ _ _) = ''ERROR''"

text \<open>
  The configuration after the defaults are filled in. \<^verbatim>\<open>cors\<close> is a string, an array
  of strings or \<^verbatim>\<open>false\<close>.

  The event sink \<^verbatim>\<open>onEvent\<close> is a callback with effects of its own. It is a function
  of the event and of the state \<open>'s\<close> of whatever the callback reads and writes (its
  variables, the clock that stamps the event, the world outside): it returns (\<open>None\<close>)
  or throws (\<open>Some\<close>), and leaves a new state. The handler passes this state on from
  one call of the sink to the next.

  Logging (\<^verbatim>\<open>verboseLogs\<close>) writes to the console only and is left out of the
  functions below.
\<close>

datatype cors_setting = CorsString string | CorsArray "string list" | CorsFalse

record 's config =
  basePath :: string
  verboseLogs :: bool
  cacheControl :: string
  cors :: cors_setting
  onEvent :: "(event \<Rightarrow> 's \<Rightarrow> thrown option \<times> 's) option"

definition DEFAULT_CACHE_CONTROL :: string where
  "DEFAULT_CACHE_CONTROL = ''public, max-age=3600''"

definition default_config :: "'s config" where
  "default_config =
     \<lparr>basePath = ''/.well-known/skills'', verboseLogs = False,
      cacheControl = DEFAULT_CACHE_CONTROL, cors = CorsString ''*'', onEvent = None\<rparr>"

text \<open>
  A request, as the handler reads it: the method, the path name of
  \<^verbatim>\<open>new URL(request.url)\<close>, and the URL's origin, which the handler uses for one thing
  only, as the base of \<^verbatim>\<open>new URL(path, url.origin).toString()\<close>. The URL constructor
  is the platform's: \<open>url_resolve\<close> is the function from \<^verbatim>\<open>path\<close> to what that expression
  returns or throws for this request. (It throws for every path when the origin of the
  request URL is opaque, that is \<^verbatim>\<open>"null"\<close>.)

  A response: the status, the headers in the order they were set, and the body. A body
  is \<^verbatim>\<open>null\<close>, a string, or \<^verbatim>\<open>JSON.stringify(v, null, n)\<close> kept as the value \<open>v\<close> and
  the indentation \<open>n\<close> (0 when none is given).
\<close>

record request =
  req_method :: string
  url_pathname :: string
  url_resolve :: "string \<Rightarrow> thrown + string"

datatype json = JStr string | JArr "json list" | JObj "(string \<times> json) list"

datatype payload = NoBody | Text string | Stringify json nat

record response =
  status :: nat
  headers :: "(string \<times> string) list"
  payload :: payload

section \<open>Headers (the platform's \<^verbatim>\<open>Headers\<close> class)\<close>

text \<open>
  \<^verbatim>\<open>new Headers(init)\<close>, \<^verbatim>\<open>headers.set(k, v)\<close> and the \<^verbatim>\<open>headers\<close> of a response's
  \<^verbatim>\<open>init\<close> treat a value alike: leading and trailing HTTP whitespace (tab, line feed,
  carriage return, space) is removed, and what is left must be a header value, with no
  NUL, line feed or carriage return in it, or a \<^verbatim>\<open>TypeError\<close> is thrown. (A code unit
  above 0xFF is refused as well; the strings here have none.) The names the handler
  uses are literals of the source, all valid and pairwise different, also when compared
  without regard to case as \<^verbatim>\<open>Headers\<close> does; \<open>headers_get\<close> looks a name up as written.
\<close>

definition httpWhitespace :: "char \<Rightarrow> bool" where
  "httpWhitespace c =
     (charCode c = 0x09 \<or> charCode c = 0x0A \<or> charCode c = 0x0D \<or> charCode c = 0x20)"

definition normalizeHeaderValue :: "string \<Rightarrow> string" where
  "normalizeHeaderValue v = rev (dropWhile httpWhitespace (rev (dropWhile httpWhitespace v)))"

definition forbiddenInValue :: "char \<Rightarrow> bool" where
  "forbiddenInValue c = (charCode c = 0x00 \<or> charCode c = 0x0A \<or> charCode c = 0x0D)"

definition headerValue :: "string \<Rightarrow> thrown + string" where
  "headerValue v =
     (if list_ex forbiddenInValue (normalizeHeaderValue v) then Inl TypeError
      else Inr (normalizeHeaderValue v))"

text \<open>
  \<^verbatim>\<open>headers.set(k, v)\<close> replaces the value of an existing header or appends;
  \<^verbatim>\<open>new Headers({k1: v1, ...})\<close> appends the entries in order.
\<close>

fun replaceHeader :: "string \<Rightarrow> string \<Rightarrow> (string \<times> string) list \<Rightarrow> (string \<times> string) list" where
  "replaceHeader k v [] = [(k, v)]"
| "replaceHeader k v (h # hs) = (if fst h = k then (k, v) # hs else h # replaceHeader k v hs)"

definition headers_set ::
  "string \<Rightarrow> string \<Rightarrow> (string \<times> string) list \<Rightarrow> thrown + (string \<times> string) list" where
  "headers_set k v hs =
     (case headerValue v of Inl e \<Rightarrow> Inl e | Inr v' \<Rightarrow> Inr (replaceHeader k v' hs))"

fun newHeaders :: "(string \<times> string) list \<Rightarrow> thrown + (string \<times> string) list" where
  "newHeaders [] = Inr []"
| "newHeaders ((k, v) # init) =
     (case headerValue v of
        Inl e \<Rightarrow> Inl e
      | Inr v' \<Rightarrow> (case newHeaders init of Inl e \<Rightarrow> Inl e | Inr hs \<Rightarrow> Inr ((k, v') # hs)))"

definition headers_get :: "(string \<times> string) list \<Rightarrow> string \<Rightarrow> string option" where
  "headers_get hs k = map_of hs k"

section \<open>Content types and the skill document (handler)\<close>

text \<open>
  \<^verbatim>\<open>contentTypes\<close> is an object literal, so \<^verbatim>\<open>contentTypes[key]\<close> finds the
  table's own entries and, for any other key, what the object inherits from
  \<^verbatim>\<open>Object.prototype\<close>; only a key found in neither gives \<^verbatim>\<open>undefined\<close> (\<open>None\<close>),
  which \<^verbatim>\<open>??\<close> replaces by the default. The result is therefore a string or an
  inherited member (a function, or the prototype object for \<^verbatim>\<open>__proto__\<close>).
\<close>

datatype js_value = Str string | Inherited string

definition contentTypes :: "(string \<times> string) list" where
  "contentTypes =
     [(''md'', ''text/markdown; charset=utf-8''),
      (''markdown'', ''text/markdown; charset=utf-8''),
      (''json'', ''application/json''),
      (''yaml'', ''text/yaml; charset=utf-8''),
      (''yml'', ''text/yaml; charset=utf-8''),
      (''txt'', ''text/plain; charset=utf-8''),
      (''py'', ''text/x-python; charset=utf-8''),
      (''js'', ''text/javascript; charset=utf-8''),
      (''ts'', ''text/typescript; charset=utf-8''),
      (''sh'', ''text/x-shellscript; charset=utf-8''),
      (''bash'', ''text/x-shellscript; charset=utf-8''),
      (''html'', ''text/html; charset=utf-8''),
      (''css'', ''text/css; charset=utf-8''),
      (''xml'', ''application/xml'')]"

definition objectPrototypeMembers :: "string list" where
  "objectPrototypeMembers =
     [''constructor'', ''__defineGetter__'', ''__defineSetter__'', ''hasOwnProperty'',
      ''__lookupGetter__'', ''__lookupSetter__'', ''isPrototypeOf'',
      ''propertyIsEnumerable'', ''toString'', ''valueOf'', ''__proto__'',
      ''toLocaleString'']"

definition contentTypes_get :: "string \<Rightarrow> js_value option" where
  "contentTypes_get key =
     (case map_of contentTypes key of
        Some m \<Rightarrow> Some (Str m)
      | None \<Rightarrow> if key \<in> set objectPrototypeMembers then Some (Inherited key) else None)"

definition getContentType :: "string \<Rightarrow> js_value" where
  "getContentType filePath =
     (let ext = (case split_on (CHR ''.'') filePath of
                   [] \<Rightarrow> None
                 | p # ps \<Rightarrow> Some (toLowerCase (last (p # ps))))
      in case contentTypes_get (case ext of None \<Rightarrow> [] | Some e \<Rightarrow> e) of
           None \<Rightarrow> Str ''text/plain; charset=utf-8''
         | Some v \<Rightarrow> v)"

text \<open>
  What the \<^verbatim>\<open>Headers\<close> constructor stores for a value: the string itself, and for
  an inherited member its conversion to a string.
\<close>

definition toHeaderString :: "js_value \<Rightarrow> string" where
  "toHeaderString v =
     (case v of
        Str s \<Rightarrow> s
      | Inherited k \<Rightarrow>
          if k = ''__proto__'' then ''[object Object]''
          else ''function '' @ (if k = ''constructor'' then ''Object'' else k)
                 @ ''() { [native code] }'')"

definition newline :: char where
  "newline = CHR 0x0A"

definition reconstructSkillMd :: "'a skill_scheme \<Rightarrow> string" where
  "reconstructSkillMd sk =
     (let frontmatter = ''---'' @ [newline] @ ''name: '' @ name sk @ [newline]
                         @ ''description: '' @ description sk @ [newline] @ ''---''
      in frontmatter @ [newline, newline] @ body sk)"

section \<open>The handler (createSkillsHandler)\<close>

definition normalizedBasePath :: "'s config \<Rightarrow> string" where
  \<comment> \<open>\<^verbatim>\<open>basePath.replace(/\/$/, "")\<close>: one slash at the very end is removed.\<close>
  "normalizedBasePath cfg =
     (if endsWith (basePath cfg) ''/'' then butlast (basePath cfg) else basePath cfg)"

text \<open>
  \<^verbatim>\<open>emitEvent\<close>: calls the sink when there is one, and does nothing otherwise. The
  result is what the call threw, if anything, and the state the call left.
\<close>

definition emitEvent :: "'s config \<Rightarrow> event \<Rightarrow> 's \<Rightarrow> thrown option \<times> 's" where
  "emitEvent cfg ev s =
     (case onEvent cfg of
        None \<Rightarrow> (None, s)
      | Some sink \<Rightarrow> sink ev s)"

text \<open>\<^verbatim>\<open>createHeaders\<close> throws what \<^verbatim>\<open>new Headers\<close> or \<^verbatim>\<open>headers.set\<close> throws.\<close>

definition createHeaders :: "'s config \<Rightarrow> string \<Rightarrow> thrown + (string \<times> string) list" where
  "createHeaders cfg contentType =
     (case newHeaders [(''Content-Type'', contentType), (''Cache-Control'', cacheControl cfg)] of
        Inl e \<Rightarrow> Inl e
      | Inr hs \<Rightarrow>
          if cors cfg \<noteq> CorsFalse then
            (let origin = (case cors cfg of
                             CorsArray os \<Rightarrow> join '', '' os
                           | CorsString s \<Rightarrow> s
                           | CorsFalse \<Rightarrow> [])
             in case headers_set ''Access-Control-Allow-Origin'' origin hs of
                  Inl e \<Rightarrow> Inl e
                | Inr h1 \<Rightarrow>
                    (case headers_set ''Access-Control-Allow-Methods'' ''GET, HEAD, OPTIONS'' h1 of
                       Inl e \<Rightarrow> Inl e
                     | Inr h2 \<Rightarrow>
                         headers_set ''Access-Control-Allow-Headers'' ''Content-Type'' h2))
          else Inr hs)"

definition handleOptions :: "'s config \<Rightarrow> thrown + response" where
  "handleOptions cfg =
     (case createHeaders cfg ''text/plain'' of
        Inl e \<Rightarrow> Inl e
      | Inr hs \<Rightarrow>
          (case headers_set ''Content-Length'' ''0'' hs of
             Inl e \<Rightarrow> Inl e
           | Inr hs' \<Rightarrow> Inr \<lparr>status = 204, headers = hs', payload = NoBody\<rparr>))"

definition jsonError :: "'s config \<Rightarrow> nat \<Rightarrow> string \<Rightarrow> thrown + response" where
  \<comment> \<open>\<^verbatim>\<open>new Response(JSON.stringify({ error: msg }), { status, headers: createHeaders("application/json") })\<close>\<close>
  "jsonError cfg st msg =
     (case createHeaders cfg ''application/json'' of
        Inl e \<Rightarrow> Inl e
      | Inr hs \<Rightarrow>
          Inr \<lparr>status = st, headers = hs,
               payload = Stringify (JObj [(''error'', JStr msg)]) 0\<rparr>)"

text \<open>
  The three \<^verbatim>\<open>catch\<close> blocks differ in the \<^verbatim>\<open>context\<close> of the event only: they build
  the \<^verbatim>\<open>ERROR\<close> event (converting what was caught), emit it and return the 500
  response. Nothing in a \<^verbatim>\<open>catch\<close> block is guarded: what the conversion, the sink or
  \<^verbatim>\<open>createHeaders\<close> throws there leaves the function.
\<close>

definition catchBlock ::
  "'s config \<Rightarrow> string \<Rightarrow> (string \<times> string) list option \<Rightarrow> thrown \<Rightarrow> 's
     \<Rightarrow> (thrown + response) \<times> 's" where
  "catchBlock cfg requestPath ctx err s =
     (case asError err of
        Inl e \<Rightarrow> (Inl e, s)
      | Inr errorObject \<Rightarrow>
          (case emitEvent cfg (ERROR requestPath errorObject ctx) s of
             (Some e, s') \<Rightarrow> (Inl e, s')
           | (None, s') \<Rightarrow> (jsonError cfg 500 ''Internal server error'', s')))"

text \<open>
  The three \<^verbatim>\<open>serve\<close> functions: everything is inside \<^verbatim>\<open>try\<close>, so what the provider,
  the sink or \<^verbatim>\<open>createHeaders\<close> throws goes to the \<^verbatim>\<open>catch\<close> block.
\<close>

definition serveIndex ::
  "'s config \<Rightarrow> 'a provider \<Rightarrow> string \<Rightarrow> 's \<Rightarrow> (thrown + response) \<times> 's" where
  "serveIndex cfg prov requestPath s =
     (case getSkills prov of
        Inl err \<Rightarrow> catchBlock cfg requestPath None err s
      | Inr skills \<Rightarrow>
          (let index = JObj [(''skills'', JArr (map (\<lambda>sk.
                         JObj [(''name'', JStr (name sk)),
                               (''description'', JStr (description sk)),
                               (''files'', JArr (map JStr (files sk)))]) skills))]
           in case emitEvent cfg (INDEX_REQUESTED requestPath (length skills)) s of
                (Some e, s') \<Rightarrow> catchBlock cfg requestPath None e s'
              | (None, s') \<Rightarrow>
                  (case createHeaders cfg ''application/json'' of
                     Inl e \<Rightarrow> catchBlock cfg requestPath None e s'
                   | Inr hs \<Rightarrow>
                       (Inr \<lparr>status = 200, headers = hs, payload = Stringify index 2\<rparr>, s'))))"

definition serveSkillMd ::
  "'s config \<Rightarrow> 'a provider \<Rightarrow> string \<Rightarrow> string \<Rightarrow> 's \<Rightarrow> (thrown + response) \<times> 's" where
  "serveSkillMd cfg prov skillName requestPath s =
     (let ctx = Some [(''skillName'', skillName)] in
      case getSkills prov of
        Inl err \<Rightarrow> catchBlock cfg requestPath ctx err s
      | Inr skills \<Rightarrow>
          (case find (\<lambda>sk. name sk = skillName) skills of
             None \<Rightarrow>
               (case emitEvent cfg (NOT_FOUND requestPath (Some skillName) None) s of
                  (Some e, s') \<Rightarrow> catchBlock cfg requestPath ctx e s'
                | (None, s') \<Rightarrow>
                    (case jsonError cfg 404 ''Skill not found'' of
                       Inl e \<Rightarrow> catchBlock cfg requestPath ctx e s'
                     | Inr r \<Rightarrow> (Inr r, s')))
           | Some sk \<Rightarrow>
               (let content = reconstructSkillMd sk in
                case emitEvent cfg (SKILL_REQUESTED requestPath skillName) s of
                  (Some e, s') \<Rightarrow> catchBlock cfg requestPath ctx e s'
                | (None, s') \<Rightarrow>
                    (case createHeaders cfg ''text/markdown; charset=utf-8'' of
                       Inl e \<Rightarrow> catchBlock cfg requestPath ctx e s'
                     | Inr hs \<Rightarrow>
                         (Inr \<lparr>status = 200, headers = hs, payload = Text content\<rparr>, s')))))"

definition serveSkillFile ::
  "'s config \<Rightarrow> 'a provider \<Rightarrow> string \<Rightarrow> string \<Rightarrow> string \<Rightarrow> 's
     \<Rightarrow> (thrown + response) \<times> 's" where
  "serveSkillFile cfg prov skillName filePath requestPath s =
     (let ctx = Some [(''skillName'', skillName), (''filePath'', filePath)] in
      case getSkillFile prov skillName filePath of
        Inl err \<Rightarrow> catchBlock cfg requestPath ctx err s
      | Inr None \<Rightarrow>
          (case emitEvent cfg (NOT_FOUND requestPath (Some skillName) (Some filePath)) s of
             (Some e, s') \<Rightarrow> catchBlock cfg requestPath ctx e s'
           | (None, s') \<Rightarrow>
               (case jsonError cfg 404 ''File not found'' of
                  Inl e \<Rightarrow> catchBlock cfg requestPath ctx e s'
                | Inr r \<Rightarrow> (Inr r, s')))
      | Inr (Some content) \<Rightarrow>
          (case emitEvent cfg (FILE_REQUESTED requestPath skillName filePath) s of
             (Some e, s') \<Rightarrow> catchBlock cfg requestPath ctx e s'
           | (None, s') \<Rightarrow>
               (let contentType = getContentType filePath in
                case createHeaders cfg (toHeaderString contentType) of
                  Inl e \<Rightarrow> catchBlock cfg requestPath ctx e s'
                | Inr hs \<Rightarrow>
                    (Inr \<lparr>status = 200, headers = hs, payload = Text content\<rparr>, s'))))"

text \<open>
  \<^verbatim>\<open>createRedirect\<close> throws what \<^verbatim>\<open>new URL(path, url.origin)\<close> throws; the response's
  \<^verbatim>\<open>headers\<close> are \<^verbatim>\<open>{ Location: ... }\<close> and nothing else.
\<close>

definition createRedirect :: "request \<Rightarrow> string \<Rightarrow> thrown + response" where
  "createRedirect req path =
     (case url_resolve req path of
        Inl e \<Rightarrow> Inl e
      | Inr redirectUrl \<Rightarrow>
          (case newHeaders [(''Location'', redirectUrl)] of
             Inl e \<Rightarrow> Inl e
           | Inr hs \<Rightarrow> Inr \<lparr>status = 302, headers = hs, payload = NoBody\<rparr>))"

text \<open>
  The path relative to the base path, as the handler computes it before routing: the
  base path is cut off when the path name starts with it, a leading slash is added
  when there is none, and one trailing slash is removed unless the path is one
  character long.
\<close>

definition relativePath :: "'s config \<Rightarrow> string \<Rightarrow> string" where
  "relativePath cfg fullPath =
     (let r1 = (if startsWith fullPath (normalizedBasePath cfg)
                then drop (length (normalizedBasePath cfg)) fullPath
                else fullPath);
          r2 = (if \<not> startsWith r1 ''/'' then ''/'' @ r1 else r1)
      in if length r2 > 1 \<and> endsWith r2 ''/'' then butlast r2 else r2)"

text \<open>
  The three route patterns. Each starts with \<^verbatim>\<open>^\/([^/]+)\<close>: a slash, then a
  non-empty run of characters other than a slash. What follows the group starts with a
  slash or is the end of the input, so the group can only be the whole run up to the
  next slash. A match returns the captured groups.
  \<^item> \<^verbatim>\<open>/^\/([^/]+)\/SKILL\.md$/\<close>
  \<^item> \<^verbatim>\<open>/^\/([^/]+)\/(.+)$/\<close>: the second group is non-empty and has no line terminator;
  \<^item> \<^verbatim>\<open>/^\/([^/]+)$/\<close>
\<close>

definition notSlash :: "char \<Rightarrow> bool" where
  "notSlash c = (c \<noteq> CHR ''/'')"

definition skillMdMatch :: "string \<Rightarrow> string option" where
  "skillMdMatch rel =
     (case rel of
        [] \<Rightarrow> None
      | c # rest \<Rightarrow>
          if c = CHR ''/'' \<and> takeWhile notSlash rest \<noteq> []
               \<and> dropWhile notSlash rest = ''/SKILL.md''
          then Some (takeWhile notSlash rest) else None)"

definition skillFileMatch :: "string \<Rightarrow> (string \<times> string) option" where
  "skillFileMatch rel =
     (case rel of
        [] \<Rightarrow> None
      | c # rest \<Rightarrow>
          if c = CHR ''/'' \<and> takeWhile notSlash rest \<noteq> [] then
            (case dropWhile notSlash rest of
               [] \<Rightarrow> None
             | d # fp \<Rightarrow>
                 if fp \<noteq> [] \<and> \<not> list_ex lineTerminator fp
                 then Some (takeWhile notSlash rest, fp) else None)
          else None)"

definition skillDirMatch :: "string \<Rightarrow> string option" where
  "skillDirMatch rel =
     (case rel of
        [] \<Rightarrow> None
      | c # rest \<Rightarrow>
          if c = CHR ''/'' \<and> takeWhile notSlash rest \<noteq> [] \<and> dropWhile notSlash rest = []
          then Some (takeWhile notSlash rest) else None)"

text \<open>
  Outside the \<^verbatim>\<open>try\<close> blocks the handler emits \<^verbatim>\<open>NOT_FOUND\<close> and then returns an
  error response, four times. Nothing is guarded there: when the sink throws, the
  handler raises and the \<^verbatim>\<open>return\<close> is not reached, and when \<^verbatim>\<open>createHeaders\<close> throws,
  the handler raises after the event.
\<close>

definition emitThenError ::
  "'s config \<Rightarrow> event \<Rightarrow> nat \<Rightarrow> string \<Rightarrow> 's \<Rightarrow> (thrown + response) \<times> 's" where
  "emitThenError cfg ev st msg s =
     (case emitEvent cfg ev s of
        (Some e, s') \<Rightarrow> (Inl e, s')
      | (None, s') \<Rightarrow> (jsonError cfg st msg, s'))"

text \<open>The end of the handler: the \<^verbatim>\<open>/{skill-name}\<close> route, then "Not found".\<close>

definition handleSkillDir ::
  "'s config \<Rightarrow> request \<Rightarrow> string \<Rightarrow> string \<Rightarrow> 's \<Rightarrow> (thrown + response) \<times> 's" where
  "handleSkillDir cfg req relPath fullPath s =
     (let notFound = emitThenError cfg (NOT_FOUND fullPath None None) 404 ''Not found'' s
      in case skillDirMatch relPath of
           Some skillName \<Rightarrow>
             if skillName \<noteq> [] \<and> isValidSkillName skillName
             then (createRedirect req
                     (normalizedBasePath cfg @ ''/'' @ skillName @ ''/SKILL.md''), s)
             else notFound
         | None \<Rightarrow> notFound)"

text \<open>
  The routes, tried in the order of the source on the relative path. A result is a
  response (\<open>Inr\<close>) or what the handler raises, that is, what its promise rejects with
  (\<open>Inl\<close>); the second component is the state the calls of the sink have left.
\<close>

definition routeRequest ::
  "'s config \<Rightarrow> 'a provider \<Rightarrow> request \<Rightarrow> string \<Rightarrow> string \<Rightarrow> 's
     \<Rightarrow> (thrown + response) \<times> 's" where
  "routeRequest cfg prov req relPath fullPath s =
     (if relPath = ''/'' \<or> relPath = []
      then (createRedirect req (normalizedBasePath cfg @ ''/index.json''), s)
      else if relPath = ''/index.json'' then serveIndex cfg prov fullPath s
      else
        (case skillMdMatch relPath of
           Some skillName \<Rightarrow>
             if skillName \<noteq> [] \<and> isValidSkillName skillName
             then serveSkillMd cfg prov skillName fullPath s
             else emitThenError cfg (NOT_FOUND fullPath (Some skillName) None)
                    400 ''Invalid skill name'' s
         | None \<Rightarrow>
             (case skillFileMatch relPath of
                Some (skillName, filePath) \<Rightarrow>
                  if skillName \<noteq> [] \<and> filePath \<noteq> [] then
                    (if \<not> isValidSkillName skillName then
                       emitThenError cfg (NOT_FOUND fullPath (Some skillName) None)
                         400 ''Invalid skill name'' s
                     else if \<not> isValidFilePath filePath then
                       emitThenError cfg (NOT_FOUND fullPath (Some skillName) (Some filePath))
                         400 ''Invalid file path'' s
                     else serveSkillFile cfg prov skillName filePath fullPath s)
                  else handleSkillDir cfg req relPath fullPath s
              | None \<Rightarrow> handleSkillDir cfg req relPath fullPath s)))"

text \<open>
  The handler: the method check (\<^verbatim>\<open>OPTIONS\<close>, then anything but \<^verbatim>\<open>GET\<close> and \<^verbatim>\<open>HEAD\<close>),
  then the routes on the relative path.
\<close>

definition handler ::
  "'s config \<Rightarrow> 'a provider \<Rightarrow> request \<Rightarrow> 's \<Rightarrow> (thrown + response) \<times> 's" where
  "handler cfg prov req s =
     (let fullPath = url_pathname req;
          method = toUpperCase (req_method req)
      in if method = ''OPTIONS'' then (handleOptions cfg, s)
         else if method \<noteq> ''GET'' \<and> method \<noteq> ''HEAD''
         then (jsonError cfg 405 ''Method not allowed'', s)
         else routeRequest cfg prov req (relativePath cfg fullPath) fullPath s)"

section \<open>The composite provider (providers.ts)\<close>

text \<open>
  A JavaScript \<^verbatim>\<open>Map\<close> keeps its keys in insertion order: \<^verbatim>\<open>set\<close> on a key it has
  replaces the value where the key stands, and appends otherwise.
\<close>

fun map_set :: "'k \<Rightarrow> 'v \<Rightarrow> ('k \<times> 'v) list \<Rightarrow> ('k \<times> 'v) list" where
  "map_set k v [] = [(k, v)]"
| "map_set k v (e # es) = (if fst e = k then (k, v) # es else e # map_set k v es)"

definition map_values :: "('k \<times> 'v) list \<Rightarrow> 'v list" where
  "map_values m = map snd m"

text \<open>The inner loop of \<^verbatim>\<open>getSkills\<close>, over the skills of one provider.\<close>

fun setSkills :: "'a skill_scheme list \<Rightarrow> (string \<times> 'a skill_scheme) list
    \<Rightarrow> (string \<times> 'a skill_scheme) list" where
  "setSkills [] skillMap = skillMap"
| "setSkills (sk # sks) skillMap = setSkills sks (map_set (name sk) sk skillMap)"

text \<open>The outer loop: a provider that throws ends it, and the composite rejects.\<close>

fun mergeProviders :: "'a provider list \<Rightarrow> (string \<times> 'a skill_scheme) list
    \<Rightarrow> thrown + (string \<times> 'a skill_scheme) list" where
  "mergeProviders [] skillMap = Inr skillMap"
| "mergeProviders (p # ps) skillMap =
     (case getSkills p of
        Inl err \<Rightarrow> Inl err
      | Inr skills \<Rightarrow> mergeProviders ps (setSkills skills skillMap))"

text \<open>The loop of \<^verbatim>\<open>getSkillFile\<close> runs from the last provider to the first.\<close>

fun firstContent :: "'a provider list \<Rightarrow> string \<Rightarrow> string \<Rightarrow> thrown + string option" where
  "firstContent [] skillName filePath = Inr None"
| "firstContent (p # ps) skillName filePath =
     (case getSkillFile p skillName filePath of
        Inl err \<Rightarrow> Inl err
      | Inr (Some content) \<Rightarrow> Inr (Some content)
      | Inr None \<Rightarrow> firstContent ps skillName filePath)"

definition createCompositeProvider :: "'a provider list \<Rightarrow> 'a provider" where
  "createCompositeProvider providers =
     \<lparr>getSkills = (case mergeProviders providers [] of
                     Inl err \<Rightarrow> Inl err
                   | Inr skillMap \<Rightarrow> Inr (map_values skillMap)),
      getSkillFile = (\<lambda>skillName filePath. firstContent (rev providers) skillName filePath)\<rparr>"

section \<open>The grammars in the specification's words\<close>

text \<open>
  The skill-name grammar as the specification words it: 1 to 64 characters drawn from
  \<open>a-z\<close>, \<open>0-9\<close> and the hyphen, not starting and not ending with a hyphen, with no
  two hyphens in a row. It is compared with \<open>isValidSkillName\<close> below.
\<close>

fun consecutiveHyphens :: "string \<Rightarrow> bool" where
  "consecutiveHyphens (a # b # cs) =
     ((a = CHR ''-'' \<and> b = CHR ''-'') \<or> consecutiveHyphens (b # cs))"
| "consecutiveHyphens _ = False"

definition skillNameGrammar :: "string \<Rightarrow> bool" where
  "skillNameGrammar s =
     (1 \<le> length s \<and> length s \<le> 64 \<and>
      list_all (\<lambda>c. c \<in> set ''abcdefghijklmnopqrstuvwxyz0123456789-'') s \<and>
      hd s \<noteq> CHR ''-'' \<and> last s \<noteq> CHR ''-'' \<and> \<not> consecutiveHyphens s)"

section \<open>Notions the properties are stated with\<close>

text \<open>
  What a call of the configured sink with an event does in a state: what it throws, if
  anything, and the state it leaves. Without a sink nothing is called.
\<close>

definition sinkCall :: "'s config \<Rightarrow> event \<Rightarrow> 's \<Rightarrow> thrown option \<times> 's" where
  "sinkCall cfg ev s = (case onEvent cfg of None \<Rightarrow> (None, s) | Some sink \<Rightarrow> sink ev s)"




text \<open>
  The response with a status and a body whose headers are those of \<^verbatim>\<open>createHeaders\<close>
  for a content type, or what \<^verbatim>\<open>createHeaders\<close> throws.
\<close>

definition respondWith :: "'s config \<Rightarrow> string \<Rightarrow> nat \<Rightarrow> payload \<Rightarrow> thrown + response" where
  "respondWith cfg contentType st b =
     (case createHeaders cfg contentType of
        Inl e \<Rightarrow> Inl e
      | Inr hs \<Rightarrow> Inr \<lparr>status = st, headers = hs, payload = b\<rparr>)"


text \<open>The body \<^verbatim>\<open>JSON.stringify({ error: msg })\<close> of an error response.\<close>

definition errorBody :: "string \<Rightarrow> payload" where
  "errorBody msg = Stringify (JObj [(''error'', JStr msg)]) 0"

text \<open>
  Reporting an event and then answering with an error: the sink, if any, is called with
  the event. When the call throws, the outcome is that the handler raises what the
  sink threw. When it returns, the outcome is the JSON error response with the given
  status and message (or, for a configuration that \<^verbatim>\<open>Headers\<close> refuses, raising what
  \<^verbatim>\<open>createHeaders\<close> throws). The state is the one the sink left.
\<close>

definition notifyThenRespond ::
  "'s config \<Rightarrow> event \<Rightarrow> nat \<Rightarrow> string \<Rightarrow> 's \<Rightarrow> (thrown + response) \<times> 's" where
  "notifyThenRespond cfg ev st msg s =
     (case sinkCall cfg ev s of
        (Some e, s') \<Rightarrow> (Inl e, s')
      | (None, s') \<Rightarrow> (respondWith cfg ''application/json'' st (errorBody msg), s'))"

text \<open>
  The headers the specification promises on a response: a \<^verbatim>\<open>Content-Type\<close>, the
  \<^verbatim>\<open>Cache-Control\<close> of the configuration, and the three CORS headers, all present when
  CORS is enabled and all absent when it is disabled. The cache-control value is the
  configured one as the \<^verbatim>\<open>Headers\<close> class stores it, without leading and trailing
  whitespace.
\<close>

definition claimedHeaders :: "'s config \<Rightarrow> (string \<times> string) list \<Rightarrow> bool" where
  "claimedHeaders cfg hs =
     ((\<exists>ct. headers_get hs ''Content-Type'' = Some ct) \<and>
      headers_get hs ''Cache-Control'' = Some (normalizeHeaderValue (cacheControl cfg)) \<and>
      (if cors cfg \<noteq> CorsFalse
       then (\<exists>origin. headers_get hs ''Access-Control-Allow-Origin'' = Some origin) \<and>
            headers_get hs ''Access-Control-Allow-Methods'' = Some ''GET, HEAD, OPTIONS'' \<and>
            headers_get hs ''Access-Control-Allow-Headers'' = Some ''Content-Type''
       else headers_get hs ''Access-Control-Allow-Origin'' = None \<and>
            headers_get hs ''Access-Control-Allow-Methods'' = None \<and>
            headers_get hs ''Access-Control-Allow-Headers'' = None))"

section \<open>Example data\<close>

text \<open>
  The skills of the specification's composite-provider example carry a further field
  \<open>v\<close>. Provider \<open>A\<close> holds \<open>{name: "x", v: 1}\<close> and provider \<open>B\<close> holds
  \<open>{name: "x", v: 2}\<close>; the other fields are empty, and neither provider has files.
\<close>

record vskill = skill +
  v :: nat

definition skillX :: "nat \<Rightarrow> vskill" where
  "skillX n = \<lparr>name = ''x'', description = [], body = [], files = [], v = n\<rparr>"

definition staticSkills :: "'a skill_scheme list \<Rightarrow> 'a provider" where
  "staticSkills sks = \<lparr>getSkills = Inr sks, getSkillFile = (\<lambda>skillName filePath. Inr None)\<rparr>"

text \<open>
  The first skill of the test suite, a provider holding it, and a provider whose two
  operations throw.
\<close>

definition gitWorkflow :: skill where
  "gitWorkflow =
     \<lparr>name = ''git-workflow'',
      description = ''Follow team Git conventions for branching and commits.'',
      body = ''# Git Workflow'', files = [''SKILL.md'']\<rparr>"

definition testProvider :: "unit provider" where
  "testProvider = staticSkills [gitWorkflow]"


text \<open>
  A request to \<open>http://localhost\<close>, as in the test suite. For a plain absolute path (one
  leading slash; letters, digits, \<open>-\<close>, \<open>_\<close>, \<open>.\<close> and single slashes; no segment
  \<open>.\<close> or \<open>..\<close>) the URL constructor has nothing to encode or to normalise, and
  \<^verbatim>\<open>new URL(path, "http://localhost").toString()\<close> is the origin followed by the path.
  The examples resolve plain paths only, so the function is left undecided elsewhere:
  for any other path it gives a \<^verbatim>\<open>TypeError\<close>, which no example relies on.
\<close>

definition plainPath :: "string \<Rightarrow> bool" where
  "plainPath p =
     (startsWith p ''/'' \<and>
      list_all (\<lambda>c. c \<in> set ''abcdefghijklmnopqrstuvwxyzABCDEFGHIJKLMNOPQRSTUVWXYZ0123456789-_./'') p \<and>
      \<not> str_includes p ''//'' \<and>
      \<not> str_includes (p @ ''/'') ''/./'' \<and> \<not> str_includes (p @ ''/'') ''/../'')"

definition localhostURL :: "string \<Rightarrow> thrown + string" where
  "localhostURL p = (if plainPath p then Inr (''http://localhost'' @ p) else Inl TypeError)"

definition localRequest :: "string \<Rightarrow> string \<Rightarrow> request" where
  "localRequest m p = \<lparr>req_method = m, url_pathname = p, url_resolve = localhostURL\<rparr>"

text \<open>The headers of a response under the default configuration, for a content type.\<close>

definition defaultHeaders :: "string \<Rightarrow> (string \<times> string) list" where
  "defaultHeaders contentType =
     [(''Content-Type'', contentType),
      (''Cache-Control'', ''public, max-age=3600''),
      (''Access-Control-Allow-Origin'', ''*''),
      (''Access-Control-Allow-Methods'', ''GET, HEAD, OPTIONS''),
      (''Access-Control-Allow-Headers'', ''Content-Type'')]"

text \<open>
  Three sinks that keep the list of the events they are called with: one returns, one
  throws on every event, one throws on every event but \<^verbatim>\<open>ERROR\<close>.
\<close>

definition recordingSink :: "event \<Rightarrow> event list \<Rightarrow> thrown option \<times> event list" where
  "recordingSink ev s = (None, s @ [ev])"

definition throwingSink :: "event \<Rightarrow> event list \<Rightarrow> thrown option \<times> event list" where
  "throwingSink ev s = (Some (ErrorObject ''sink''), s @ [ev])"

definition pickySink :: "event \<Rightarrow> event list \<Rightarrow> thrown option \<times> event list" where
  "pickySink ev s =
     (if eventType ev = ''ERROR'' then None else Some (ErrorObject ''sink''), s @ [ev])"

section \<open>Properties of the string functions\<close>

lemma startsWith_iff: "startsWith s p \<longleftrightarrow> (\<exists>v. s = p @ v)"
proof
  assume "startsWith s p"
  then have "s = p @ drop (length p) s"
    unfolding startsWith_def by (metis append_take_drop_id)
  then show "\<exists>v. s = p @ v" ..
next
  assume "\<exists>v. s = p @ v"
  then show "startsWith s p" unfolding startsWith_def by auto
qed

lemma str_includes_iff: "str_includes s p \<longleftrightarrow> (\<exists>u v. s = u @ p @ v)"
proof (induction s)
  case Nil
  then show ?case by auto
next
  case (Cons c cs)
  show ?case
  proof
    assume "str_includes (c # cs) p"
    then consider "startsWith (c # cs) p" | "str_includes cs p" by auto
    then show "\<exists>u v. c # cs = u @ p @ v"
    proof cases
      case 1
      then obtain v where "c # cs = p @ v" using startsWith_iff by blast
      then have "c # cs = [] @ p @ v" by simp
      then show ?thesis by blast
    next
      case 2
      then obtain u v where "cs = u @ p @ v" using Cons.IH by blast
      then have "c # cs = (c # u) @ p @ v" by simp
      then show ?thesis by blast
    qed
  next
    assume "\<exists>u v. c # cs = u @ p @ v"
    then obtain u v where uv: "c # cs = u @ p @ v" by blast
    show "str_includes (c # cs) p"
    proof (cases u)
      case Nil
      with uv have "startsWith (c # cs) p" using startsWith_iff by auto
      then show ?thesis by simp
    next
      case (Cons a u')
      with uv have "cs = u' @ p @ v" by simp
      then have "str_includes cs p" using Cons.IH by blast
      then show ?thesis by simp
    qed
  qed
qed

lemma str_includes_char: "str_includes s [c] \<longleftrightarrow> c \<in> set s"
  unfolding str_includes_iff by (auto simp: in_set_conv_decomp)

lemma mem_by_code: "c \<in> set xs \<longleftrightarrow> charCode c \<in> set (map charCode xs)"
proof -
  have "inj charCode"
    using inj_of_char[where ?'a = nat] by (simp add: charCode_def[abs_def])
  then show ?thesis by (simp add: inj_image_mem_iff)
qed

lemma code_eq_iff: "c = d \<longleftrightarrow> charCode c = charCode d"
  by (simp add: charCode_def)

lemma takeWhile_all: "length (takeWhile P s) = length s \<longleftrightarrow> list_all P s"
  by (induction s) (auto simp: le_imp_less_Suc length_takeWhile_le dual_order.strict_iff_not)

lemma takeWhile_id: "list_all P s \<Longrightarrow> takeWhile P s = s"
  by (induction s) auto

section \<open>The skill-name validator\<close>

lemma nameClass_iff: "nameClass c \<longleftrightarrow> c \<in> set ''abcdefghijklmnopqrstuvwxyz0123456789-''"
proof -
  have l: "map charCode ''abcdefghijklmnopqrstuvwxyz0123456789-'' = [97..<123] @ [48..<58] @ [45]"
    by (simp add: charCode_def upt_rec)
  have "nameClass c \<longleftrightarrow> charCode c \<in> set ([97..<123] @ [48..<58] @ [45])"
    unfolding nameClass_def Let_def code_eq_iff[of c "CHR ''-''"] set_append set_upt
    by (auto simp: charCode_def)
  then show ?thesis unfolding mem_by_code[of c] l .
qed

lemma upper_not_nameClass:
  assumes "c \<in> set ''ABCDEFGHIJKLMNOPQRSTUVWXYZ'' \<or> c = CHR ''_''"
  shows "\<not> nameClass c"
proof -
  have l: "map charCode ''ABCDEFGHIJKLMNOPQRSTUVWXYZ'' = [65..<91]"
    by (simp add: charCode_def upt_rec)
  from assms have "charCode c \<in> {65..<91} \<or> charCode c = 95"
    unfolding mem_by_code[of c] l set_upt code_eq_iff[of c "CHR ''_''"]
    by (simp add: charCode_def)
  then show ?thesis
    unfolding nameClass_def Let_def code_eq_iff[of c "CHR ''-''"]
    by (auto simp: charCode_def)
qed

lemma consecutiveHyphens_iff: "consecutiveHyphens s \<longleftrightarrow> str_includes s ''--''"
  by (induction s rule: consecutiveHyphens.induct) (auto simp: startsWith_def)

lemma pattern_lengths:
  "list_ex (\<lambda>k. s ! (k - 1) \<noteq> CHR ''-'' \<and> k = length s) (skillNameLengths s) \<longleftrightarrow>
     1 \<le> length s \<and> length s \<le> 64 \<and> list_all nameClass s \<and> last s \<noteq> CHR ''-''"
proof -
  have le: "length (takeWhile nameClass s) \<le> length s" by (rule length_takeWhile_le)
  have "list_ex (\<lambda>k. s ! (k - 1) \<noteq> CHR ''-'' \<and> k = length s) (skillNameLengths s) \<longleftrightarrow>
        1 \<le> length s \<and> length s \<le> 64 \<and> length s \<le> length (takeWhile nameClass s) \<and>
        s ! (length s - 1) \<noteq> CHR ''-''"
    unfolding skillNameLengths_def list_ex_iff by auto
  also have "\<dots> \<longleftrightarrow> 1 \<le> length s \<and> length s \<le> 64 \<and> list_all nameClass s \<and> last s \<noteq> CHR ''-''"
    using le takeWhile_all[of nameClass s] by (cases "s = []") (auto simp: last_conv_nth)
  finally show ?thesis .
qed

lemma nameClass_not_lineTerminator: "nameClass c \<Longrightarrow> \<not> lineTerminator c"
  by (auto simp: nameClass_def lineTerminator_def Let_def charCode_def)

lemma skillNameGrammar_alt:
  "skillNameGrammar s \<longleftrightarrow>
     1 \<le> length s \<and> length s \<le> 64 \<and> list_all nameClass s \<and>
     hd s \<noteq> CHR ''-'' \<and> last s \<noteq> CHR ''-'' \<and> \<not> str_includes s ''--''"
  by (simp only: skillNameGrammar_def nameClass_iff[symmetric] consecutiveHyphens_iff)

lemma startsWith_hyphen: "s \<noteq> [] \<Longrightarrow> startsWith s ''-'' \<longleftrightarrow> hd s = CHR ''-''"
  by (cases s) (simp_all add: startsWith_def)

lemma isValidSkillName_alt: "isValidSkillName s \<longleftrightarrow> skillNameGrammar s"
proof (cases "list_all nameClass s")
  case True
  then have "list_all (\<lambda>c. \<not> lineTerminator c) s"
    by (simp add: list_all_iff nameClass_not_lineTerminator)
  then have tw: "takeWhile (\<lambda>c. \<not> lineTerminator c) s = s" by (rule takeWhile_id)
  show ?thesis
  proof (cases "s = []")
    case True
    then show ?thesis
      unfolding isValidSkillName_def SKILL_NAME_PATTERN_test_def pattern_lengths
        skillNameGrammar_alt by simp
  next
    case False
    then show ?thesis
      unfolding isValidSkillName_def SKILL_NAME_PATTERN_test_def pattern_lengths tw
        skillNameGrammar_alt startsWith_hyphen[OF False] by blast
  qed
next
  case False
  then show ?thesis
    unfolding isValidSkillName_def SKILL_NAME_PATTERN_test_def pattern_lengths
      skillNameGrammar_alt by blast
qed

text \<open>
  C6. \<open>isValidSkillName\<close> returns true exactly for the strings of the skill-name
  grammar: 1 to 64 characters drawn from \<open>a-z\<close>, \<open>0-9\<close> and the hyphen, with no hyphen
  at the start or at the end and no two hyphens in a row. It returns false for every
  string that contains an uppercase letter or an underscore, starts or ends with a
  hyphen, contains two hyphens in a row, is empty or is longer than 64 characters.
\<close>

theorem isValidSkillName_grammar:
  "(isValidSkillName s \<longleftrightarrow> skillNameGrammar s) \<and>
   ((\<exists>c \<in> set s. c \<in> set ''ABCDEFGHIJKLMNOPQRSTUVWXYZ'' \<or> c = CHR ''_'') \<or>
     hd s = CHR ''-'' \<or> last s = CHR ''-'' \<or> consecutiveHyphens s \<or>
     length s = 0 \<or> 64 < length s \<longrightarrow> \<not> isValidSkillName s)"
proof -
  have "\<not> list_all nameClass s"
    if "\<exists>c \<in> set s. c \<in> set ''ABCDEFGHIJKLMNOPQRSTUVWXYZ'' \<or> c = CHR ''_''"
    using that upper_not_nameClass unfolding list_all_iff by blast
  then show ?thesis
    unfolding isValidSkillName_alt skillNameGrammar_alt consecutiveHyphens_iff
    by auto
qed

theorem isValidSkillName_grammar_witness:
  "isValidSkillName ''git-workflow'' \<and> \<not> isValidSkillName ''git_workflow''"
proof -
  have g: "skillNameGrammar ''git-workflow''"
    by (simp add: skillNameGrammar_def)
  have u: "\<exists>c \<in> set ''git_workflow''. c \<in> set ''ABCDEFGHIJKLMNOPQRSTUVWXYZ'' \<or> c = CHR ''_''"
    by simp
  from g have "isValidSkillName ''git-workflow''"
    using isValidSkillName_grammar[of "''git-workflow''"] by blast
  moreover from u have "\<not> isValidSkillName ''git_workflow''"
    using isValidSkillName_grammar[of "''git_workflow''"] by blast
  ultimately show ?thesis ..
qed

section \<open>The file-path validator\<close>

lemma invalidChar_iff:
  "invalidChar c \<longleftrightarrow>
     c \<in> set ''?#[]'' \<or> charCode c \<le> 0x1F \<or> (0x7F \<le> charCode c \<and> charCode c \<le> 0xFF)"
  by (auto simp: invalidChar_def Let_def)

lemma isValidFilePath_alt:
  "isValidFilePath p \<longleftrightarrow>
     \<not> (p = [] \<or> (\<exists>t. p = CHR ''/'' # t) \<or> (\<exists>u v. p = u @ ''..'' @ v) \<or>
        CHR 0x5C \<in> set p \<or>
        (\<exists>c \<in> set p. c \<in> set ''?#[]'' \<or> charCode c \<le> 0x1F \<or>
                       (0x7F \<le> charCode c \<and> charCode c \<le> 0xFF)))"
proof -
  have s: "startsWith p ''/'' \<longleftrightarrow> (\<exists>t. p = CHR ''/'' # t)"
    unfolding startsWith_iff by simp
  have chain: "(if a then False else if b then False else if c then False
                else if d then False else if e then False else True)
               = (\<not> (a \<or> b \<or> c \<or> d \<or> e))" for a b c d e
    by simp
  show ?thesis
    unfolding isValidFilePath_def s str_includes_char str_includes_iff[of p "''..''"]
      list_ex_iff invalidChar_iff chain length_0_conv
    by blast
qed

text \<open>
  C7. \<open>isValidFilePath\<close> returns false for every string that is empty, starts with a
  slash, contains two dots in a row anywhere, contains a backslash, or contains one of
  \<open>? # [ ]\<close> or a character in 0x00-0x1F or 0x7F-0xFF, and for no other string; it
  returns true for \<open>SKILL.md\<close>, \<open>scripts/extract.py\<close> and
  \<open>references/deep/nested/file.md\<close>.
\<close>

theorem isValidFilePath_rejects:
  "((p = [] \<or> (\<exists>t. p = CHR ''/'' # t) \<or> (\<exists>u v. p = u @ ''..'' @ v) \<or>
     CHR 0x5C \<in> set p \<or>
     (\<exists>c \<in> set p. c \<in> set ''?#[]'' \<or> charCode c \<le> 0x1F \<or>
                    (0x7F \<le> charCode c \<and> charCode c \<le> 0xFF)))
      = (\<not> isValidFilePath p)) \<and>
   isValidFilePath ''SKILL.md'' \<and>
   isValidFilePath ''scripts/extract.py'' \<and>
   isValidFilePath ''references/deep/nested/file.md''"
proof -
  have "isValidFilePath ''SKILL.md''"
    by (simp add: isValidFilePath_def startsWith_def invalidChar_def charCode_def)
  moreover have "isValidFilePath ''scripts/extract.py''"
    by (simp add: isValidFilePath_def startsWith_def invalidChar_def charCode_def)
  moreover have "isValidFilePath ''references/deep/nested/file.md''"
    by (simp add: isValidFilePath_def startsWith_def invalidChar_def charCode_def)
  ultimately show ?thesis
    unfolding isValidFilePath_alt[of p] by blast
qed

theorem isValidFilePath_rejects_witness:
  "\<not> isValidFilePath ''scripts/../secret.md'' \<and> \<not> isValidFilePath ''file.md#section''"
proof -
  have "''scripts/../secret.md'' = ''scripts/'' @ ''..'' @ ''/secret.md''" by simp
  then have "\<exists>u v. ''scripts/../secret.md'' = u @ ''..'' @ v" by blast
  then have "\<not> isValidFilePath ''scripts/../secret.md''"
    using isValidFilePath_rejects[of "''scripts/../secret.md''"] by blast
  moreover have "\<exists>c \<in> set ''file.md#section''. c \<in> set ''?#[]'' \<or> charCode c \<le> 0x1F \<or>
                    (0x7F \<le> charCode c \<and> charCode c \<le> 0xFF)" by simp
  then have "\<not> isValidFilePath ''file.md#section''"
    using isValidFilePath_rejects[of "''file.md#section''"] by blast
  ultimately show ?thesis ..
qed

section \<open>The composite provider\<close>

lemma map_of_map_set: "map_of (map_set k x m) = (map_of m)(k \<mapsto> x)"
  by (induction m) (auto simp: fun_eq_iff)

lemma keys_map_set:
  "map fst (map_set k x m) = (if k \<in> set (map fst m) then map fst m else map fst m @ [k])"
  by (induction m) auto

lemma distinct_map_set: "distinct (map fst m) \<Longrightarrow> distinct (map fst (map_set k x m))"
  by (simp add: keys_map_set)

lemma named_map_set:
  "list_all (\<lambda>e. name (snd e) = fst e) m \<Longrightarrow> list_all (\<lambda>e. name (snd e) = fst e) (map_set (name sk) sk m)"
  by (induction m) auto

lemma setSkills_distinct: "distinct (map fst m) \<Longrightarrow> distinct (map fst (setSkills sks m))"
  by (induction sks arbitrary: m) (auto simp: distinct_map_set)

lemma setSkills_named:
  "list_all (\<lambda>e. name (snd e) = fst e) m \<Longrightarrow> list_all (\<lambda>e. name (snd e) = fst e) (setSkills sks m)"
  by (induction sks arbitrary: m) (auto simp: named_map_set)

lemma keyset_map_set: "fst ` set (map_set k x m) = insert k (fst ` set m)"
  by (induction m) auto

lemma setSkills_keys: "fst ` set (setSkills sks m) = fst ` set m \<union> name ` set sks"
  by (induction sks arbitrary: m) (simp_all add: keyset_map_set)

lemma find_app:
  "find P (xs @ ys) = (case find P xs of None \<Rightarrow> find P ys | Some x \<Rightarrow> Some x)"
  by (induction xs) auto

lemma setSkills_lookup:
  "map_of (setSkills sks m) k =
     (case find (\<lambda>s. name s = k) (rev sks) of Some s \<Rightarrow> Some s | None \<Rightarrow> map_of m k)"
  by (induction sks arbitrary: m) (auto simp: map_of_map_set find_app split: option.splits)

lemma setSkills_append: "setSkills (a @ b) m = setSkills b (setSkills a m)"
  by (induction a arbitrary: m) auto

lemma mergeProviders_all:
  "map getSkills ps = map Inr sss \<Longrightarrow> mergeProviders ps m = Inr (setSkills (concat sss) m)"
proof (induction ps arbitrary: sss m)
  case Nil
  then show ?case by simp
next
  case (Cons p ps)
  then obtain sks rest where sss: "sss = sks # rest" and p: "getSkills p = Inr sks"
    and r: "map getSkills ps = map Inr rest" by (cases sss) auto
  show ?case using Cons.IH[OF r] by (simp add: sss p setSkills_append)
qed

lemma mergeProviders_invariant:
  assumes "mergeProviders ps m = Inr m'"
    and "distinct (map fst m)" and "list_all (\<lambda>e. name (snd e) = fst e) m"
  shows "distinct (map fst m') \<and> list_all (\<lambda>e. name (snd e) = fst e) m'"
  using assms
proof (induction ps arbitrary: m)
  case Nil
  then show ?case by simp
next
  case (Cons p ps)
  from Cons.prems(1) obtain sks where p: "getSkills p = Inr sks"
    and r: "mergeProviders ps (setSkills sks m) = Inr m'"
    by (auto split: sum.splits)
  show ?case
    using Cons.IH[OF r setSkills_distinct[OF Cons.prems(2)] setSkills_named[OF Cons.prems(3)]] .
qed

lemma names_of_values:
  "list_all (\<lambda>e. name (snd e) = fst e) m \<Longrightarrow> map name (map snd m) = map fst m"
  by (induction m) auto

lemma find_SomeD: "find P ys = Some x \<Longrightarrow> P x \<and> x \<in> set ys"
  by (induction ys) (auto split: if_splits)

lemma find_NoneD: "find P ys = None \<Longrightarrow> \<not> list_ex P ys"
  by (induction ys) (auto split: if_splits)

lemma find_last_provider:
  assumes "find P (rev (concat sss)) = Some sk"
  shows "\<exists>i<length sss. sk \<in> set (sss ! i) \<and> P sk \<and>
           (\<forall>j. i < j \<and> j < length sss \<longrightarrow> \<not> list_ex P (sss ! j))"
  using assms
proof (induction sss rule: rev_induct)
  case Nil
  then show ?case by simp
next
  case (snoc xs xss)
  show ?case
  proof (cases "find P (rev xs)")
    case (Some s)
    with snoc.prems have s: "s = sk" by (simp add: find_app)
    from find_SomeD[OF Some] have "sk \<in> set xs \<and> P sk" unfolding s by simp
    then have "length xss < length (xss @ [xs]) \<and> sk \<in> set ((xss @ [xs]) ! length xss) \<and> P sk \<and>
        (\<forall>j. length xss < j \<and> j < length (xss @ [xs]) \<longrightarrow> \<not> list_ex P ((xss @ [xs]) ! j))"
      by auto
    then show ?thesis by blast
  next
    case None
    with snoc.prems have "find P (rev (concat xss)) = Some sk" by (simp add: find_app)
    from snoc.IH[OF this] obtain i where i: "i < length xss" "sk \<in> set (xss ! i)" "P sk"
      "\<forall>j. i < j \<and> j < length xss \<longrightarrow> \<not> list_ex P (xss ! j)" by blast
    from find_NoneD[OF None] have n: "\<not> list_ex P xs" by (simp add: list_ex_iff)
    have "\<not> list_ex P ((xss @ [xs]) ! j)" if "i < j" "j < length (xss @ [xs])" for j
    proof (cases "j < length xss")
      case True
      then show ?thesis using i(4) that(1) by (simp add: nth_append)
    next
      case False
      with that(2) have "j = length xss" by simp
      then show ?thesis using n by simp
    qed
    then have "i < length (xss @ [xs]) \<and> sk \<in> set ((xss @ [xs]) ! i) \<and> P sk \<and>
        (\<forall>j. i < j \<and> j < length (xss @ [xs]) \<longrightarrow> \<not> list_ex P ((xss @ [xs]) ! j))"
      using i(1,2,3) by (simp add: nth_append)
    then show ?thesis by blast
  qed
qed

text \<open>
  C9. Whenever the composite provider's \<open>getSkills\<close> returns a list, no two of its
  skills have the same name. When every provider of the list returns its skills, the
  composite returns a list; its names are the names the providers supply; the skill
  it returns for a name is the last one of that name in the providers' lists taken in
  order, and so it comes from a provider after which no provider supplies that name.
  For the providers \<open>[A, B]\<close> of the example, exactly the skill \<open>x\<close> with \<open>v = 2\<close> is
  returned.
\<close>

theorem composite_getSkills_last_wins:
  "(\<forall>out. getSkills (createCompositeProvider providers) = Inr out \<longrightarrow> distinct (map name out)) \<and>
   (map getSkills providers = map Inr sss \<longrightarrow>
     (\<exists>out. getSkills (createCompositeProvider providers) = Inr out \<and>
        distinct (map name out) \<and>
        set (map name out) = set (map name (concat sss)) \<and>
        list_all (\<lambda>sk. find (\<lambda>s. name s = name sk) (rev (concat sss)) = Some sk) out \<and>
        list_all (\<lambda>sk. \<exists>i<length sss. sk \<in> set (sss ! i) \<and>
                    (\<forall>j. i < j \<and> j < length sss \<longrightarrow>
                       \<not> list_ex (\<lambda>s. name s = name sk) (sss ! j))) out)) \<and>
   getSkills (createCompositeProvider [staticSkills [skillX 1], staticSkills [skillX 2]])
     = Inr [skillX 2]"
proof (intro conjI allI impI)
  fix out
  assume "getSkills (createCompositeProvider providers) = Inr out"
  then obtain m where m: "mergeProviders providers [] = Inr m" and out: "out = map snd m"
    by (auto simp: createCompositeProvider_def map_values_def split: sum.splits)
  from mergeProviders_invariant[OF m] have "distinct (map fst m)"
    and "list_all (\<lambda>e. name (snd e) = fst e) m" by simp_all
  then show "distinct (map name out)" unfolding out by (simp only: names_of_values)
next
  assume a: "map getSkills providers = map Inr sss"
  define m where "m = setSkills (concat sss) []"
  have res: "getSkills (createCompositeProvider providers) = Inr (map snd m)"
    by (simp add: createCompositeProvider_def mergeProviders_all[OF a] map_values_def m_def)
  have d: "distinct (map fst m)" unfolding m_def by (rule setSkills_distinct) simp
  have n: "list_all (\<lambda>e. name (snd e) = fst e) m" unfolding m_def by (rule setSkills_named) simp
  then have names: "map name (map snd m) = map fst m" by (rule names_of_values)
  have keys: "fst ` set m = name ` set (concat sss)"
    unfolding m_def setSkills_keys by simp
  have last: "find (\<lambda>s. name s = name sk) (rev (concat sss)) = Some sk"
    if "sk \<in> set (map snd m)" for sk
  proof -
    from that obtain k where "(k, sk) \<in> set m" by auto
    moreover from this n have "name sk = k" by (auto simp: list_all_iff)
    ultimately have "map_of m (name sk) = Some sk" using d by simp
    then show ?thesis unfolding m_def setSkills_lookup by (simp split: option.splits)
  qed
  have prov: "\<exists>i<length sss. sk \<in> set (sss ! i) \<and>
                (\<forall>j. i < j \<and> j < length sss \<longrightarrow>
                   \<not> list_ex (\<lambda>s. name s = name sk) (sss ! j))"
    if "sk \<in> set (map snd m)" for sk
    using find_last_provider[OF last[OF that]] by blast
  show "\<exists>out. getSkills (createCompositeProvider providers) = Inr out \<and>
      distinct (map name out) \<and>
      set (map name out) = set (map name (concat sss)) \<and>
      list_all (\<lambda>sk. find (\<lambda>s. name s = name sk) (rev (concat sss)) = Some sk) out \<and>
      list_all (\<lambda>sk. \<exists>i<length sss. sk \<in> set (sss ! i) \<and>
                  (\<forall>j. i < j \<and> j < length sss \<longrightarrow>
                     \<not> list_ex (\<lambda>s. name s = name sk) (sss ! j))) out"
  proof (intro exI conjI)
    show "list_all (\<lambda>sk. \<exists>i<length sss. sk \<in> set (sss ! i) \<and>
                  (\<forall>j. i < j \<and> j < length sss \<longrightarrow>
                     \<not> list_ex (\<lambda>s. name s = name sk) (sss ! j))) (map snd m)"
      unfolding list_all_iff using prov by blast
    show "getSkills (createCompositeProvider providers) = Inr (map snd m)" by (rule res)
    show "distinct (map name (map snd m))" unfolding names by (rule d)
    show "set (map name (map snd m)) = set (map name (concat sss))"
      unfolding names using keys by simp
    show "list_all (\<lambda>sk. find (\<lambda>s. name s = name sk) (rev (concat sss)) = Some sk) (map snd m)"
      unfolding list_all_iff using last by blast
  qed
next
  show "getSkills (createCompositeProvider [staticSkills [skillX 1], staticSkills [skillX 2]])
     = Inr [skillX 2]"
    by (simp add: createCompositeProvider_def staticSkills_def skillX_def map_values_def)
qed

theorem composite_getSkills_last_wins_witness:
  "map getSkills [staticSkills [skillX 1], staticSkills [skillX 2]]
     = map Inr [[skillX 1], [skillX 2]] \<and>
   getSkills (createCompositeProvider [staticSkills [skillX 1], staticSkills [skillX 2]])
     = Inr [skillX 2] \<and>
   distinct (map name [skillX 2]) \<and>
   find (\<lambda>s. name s = ''x'') (rev (concat [[skillX 1], [skillX 2]])) = Some (skillX 2)"
proof -
  let ?ps = "[staticSkills [skillX 1], staticSkills [skillX 2]]"
  let ?sss = "[[skillX 1], [skillX 2]]"
  have h: "map getSkills ?ps = map Inr ?sss" by (simp add: staticSkills_def)
  have r: "getSkills (createCompositeProvider ?ps) = Inr [skillX 2]"
    using composite_getSkills_last_wins[of ?ps ?sss] by blast
  from h obtain out where o: "getSkills (createCompositeProvider ?ps) = Inr out"
    and d: "distinct (map name out)"
    and l: "list_all (\<lambda>sk. find (\<lambda>s. name s = name sk) (rev (concat ?sss)) = Some sk) out"
    using composite_getSkills_last_wins[of ?ps ?sss] by blast
  from o r have out: "out = [skillX 2]" by simp
  from l have "find (\<lambda>s. name s = ''x'') (rev (concat ?sss)) = Some (skillX 2)"
    unfolding out by (simp add: skillX_def)
  with h r d show ?thesis unfolding out by blast
qed

section \<open>The handler: case analysis, and sinks that return\<close>

lemma emitEvent_sinkCall: "emitEvent cfg ev s = sinkCall cfg ev s"
  by (simp add: emitEvent_def sinkCall_def)



lemma emitThenError_cases:
  assumes "\<And>x s'. emitEvent cfg ev s = (Some x, s') \<Longrightarrow> P (Inl x, s')"
    and "\<And>s'. emitEvent cfg ev s = (None, s') \<Longrightarrow> P (jsonError cfg st msg, s')"
  shows "P (emitThenError cfg ev st msg s)"
proof (cases "emitEvent cfg ev s")
  case (Pair e s')
  then show ?thesis
    using assms by (cases e) (simp_all add: emitThenError_def)
qed

lemma handleSkillDir_cases:
  assumes "\<And>p. P (createRedirect req p, s)"
    and "\<And>ev msg. P (emitThenError cfg ev 404 msg s)"
  shows "P (handleSkillDir cfg req relPath fullPath s)"
proof (cases "skillDirMatch relPath")
  case None
  then show ?thesis using assms(2) by (simp add: handleSkillDir_def)
next
  case (Some n)
  then show ?thesis using assms by (simp add: handleSkillDir_def)
qed

lemma routeRequest_cases:
  assumes "\<And>p. P (createRedirect req p, s)"
    and "P (serveIndex cfg prov fullPath s)"
    and "\<And>n. P (serveSkillMd cfg prov n fullPath s)"
    and "\<And>n f. P (serveSkillFile cfg prov n f fullPath s)"
    and "\<And>ev msg. P (emitThenError cfg ev 400 msg s)"
    and "\<And>ev msg. P (emitThenError cfg ev 404 msg s)"
  shows "P (routeRequest cfg prov req relPath fullPath s)"
proof -
  have dir: "P (handleSkillDir cfg req relPath fullPath s)"
    using assms(1,6) by (rule handleSkillDir_cases)
  show ?thesis
  proof (cases "skillMdMatch relPath")
    case (Some n)
    then show ?thesis using assms(1,2,3,5) by (simp add: routeRequest_def)
  next
    case None
    note md = this
    show ?thesis
    proof (cases "skillFileMatch relPath")
      case None
      then show ?thesis using md dir assms(1,2) by (simp add: routeRequest_def)
    next
      case (Some nf)
      then obtain n f where "skillFileMatch relPath = Some (n, f)" by (cases nf) auto
      then show ?thesis using md dir assms(1,2,4,5) by (simp add: routeRequest_def)
    qed
  qed
qed

lemma handler_cases:
  assumes "P (handleOptions cfg, s)"
    and "P (jsonError cfg 405 ''Method not allowed'', s)"
    and "\<And>p. P (createRedirect req p, s)"
    and "P (serveIndex cfg prov (url_pathname req) s)"
    and "\<And>n. P (serveSkillMd cfg prov n (url_pathname req) s)"
    and "\<And>n f. P (serveSkillFile cfg prov n f (url_pathname req) s)"
    and "\<And>ev msg. P (emitThenError cfg ev 400 msg s)"
    and "\<And>ev msg. P (emitThenError cfg ev 404 msg s)"
  shows "P (handler cfg prov req s)"
proof -
  have "P (routeRequest cfg prov req (relativePath cfg (url_pathname req)) (url_pathname req) s)"
    using assms(3-8) by (rule routeRequest_cases)
  then show ?thesis using assms(1,2) by (simp add: handler_def Let_def)
qed

text \<open>Without a sink, and with a sink that returns.\<close>

lemma createHeaders_without_sink [simp]:
  "createHeaders (cfg\<lparr>onEvent := None\<rparr>) ct = createHeaders cfg ct"
  by (simp add: createHeaders_def Let_def cong: sum.case_cong if_cong)

lemma jsonError_without_sink [simp]:
  "jsonError (cfg\<lparr>onEvent := None\<rparr>) st msg = jsonError cfg st msg"
  by (simp add: jsonError_def)

lemma handleOptions_without_sink [simp]:
  "handleOptions (cfg\<lparr>onEvent := None\<rparr>) = handleOptions cfg"
  by (simp add: handleOptions_def)

lemma normalizedBasePath_without_sink [simp]:
  "normalizedBasePath (cfg\<lparr>onEvent := None\<rparr>) = normalizedBasePath cfg"
  by (simp add: normalizedBasePath_def)

lemma relativePath_without_sink [simp]:
  "relativePath (cfg\<lparr>onEvent := None\<rparr>) p = relativePath cfg p"
  by (simp add: relativePath_def)













section \<open>Headers\<close>

lemma headerValue_Inr: "headerValue x = Inr w \<Longrightarrow> w = normalizeHeaderValue x"
  by (auto simp: headerValue_def split: if_splits)

lemma headerValue_Inl: "headerValue x = Inl e \<Longrightarrow> e = TypeError"
  by (auto simp: headerValue_def split: if_splits)

lemma literal_header_values:
  "headerValue ''GET, HEAD, OPTIONS'' = Inr ''GET, HEAD, OPTIONS''"
  "headerValue ''Content-Type'' = Inr ''Content-Type''"
  "headerValue ''0'' = Inr ''0''"
  "headerValue ''application/json'' = Inr ''application/json''"
  "headerValue ''text/plain'' = Inr ''text/plain''"
  "headerValue ''text/markdown; charset=utf-8'' = Inr ''text/markdown; charset=utf-8''"
  by code_simp+

text \<open>\<^verbatim>\<open>createHeaders\<close>, with the validation of each value written out.\<close>

lemma createHeaders_eq:
  "createHeaders cfg ct =
     (case headerValue ct of
        Inl e \<Rightarrow> Inl e
      | Inr c \<Rightarrow>
          (case headerValue (cacheControl cfg) of
             Inl e \<Rightarrow> Inl e
           | Inr cc \<Rightarrow>
               (case cors cfg of
                  CorsFalse \<Rightarrow> Inr [(''Content-Type'', c), (''Cache-Control'', cc)]
                | CorsString origin \<Rightarrow>
                    (case headerValue origin of
                       Inl e \<Rightarrow> Inl e
                     | Inr ov \<Rightarrow>
                         Inr [(''Content-Type'', c), (''Cache-Control'', cc),
                              (''Access-Control-Allow-Origin'', ov),
                              (''Access-Control-Allow-Methods'', ''GET, HEAD, OPTIONS''),
                              (''Access-Control-Allow-Headers'', ''Content-Type'')])
                | CorsArray os \<Rightarrow>
                    (case headerValue (join '', '' os) of
                       Inl e \<Rightarrow> Inl e
                     | Inr ov \<Rightarrow>
                         Inr [(''Content-Type'', c), (''Cache-Control'', cc),
                              (''Access-Control-Allow-Origin'', ov),
                              (''Access-Control-Allow-Methods'', ''GET, HEAD, OPTIONS''),
                              (''Access-Control-Allow-Headers'', ''Content-Type'')]))))"
proof (cases "headerValue ct")
  case (Inl e)
  then show ?thesis by (simp add: createHeaders_def)
next
  case c: (Inr c)
  show ?thesis
  proof (cases "headerValue (cacheControl cfg)")
    case (Inl e)
    then show ?thesis using c by (simp add: createHeaders_def)
  next
    case cc: (Inr cc)
    show ?thesis
    proof (cases "cors cfg")
      case CorsFalse
      then show ?thesis using c cc by (simp add: createHeaders_def)
    next
      case (CorsString origin)
      then show ?thesis using c cc
        by (cases "headerValue origin")
           (simp_all add: createHeaders_def headers_set_def literal_header_values)
    next
      case (CorsArray os)
      then show ?thesis using c cc
        by (cases "headerValue (join '', '' os)")
           (simp_all add: createHeaders_def headers_set_def literal_header_values)
    qed
  qed
qed

lemma createHeaders_Inl: "createHeaders cfg ct = Inl e \<Longrightarrow> e = TypeError"
  unfolding createHeaders_eq
  by (auto split: sum.splits cors_setting.splits dest: headerValue_Inl)

lemma createHeaders_claimed:
  assumes "createHeaders cfg ct = Inr hs"
  shows "claimedHeaders cfg hs"
    and "headers_get hs ''Content-Type'' = Some (normalizeHeaderValue ct)"
  using assms unfolding createHeaders_eq
  by (auto simp: claimedHeaders_def headers_get_def
      split: sum.splits cors_setting.splits dest: headerValue_Inr)


lemma jsonError_respondWith:
  "jsonError cfg st msg = respondWith cfg ''application/json'' st (errorBody msg)"
  by (simp add: jsonError_def respondWith_def errorBody_def)

lemma jsonError_Inl: "jsonError cfg st msg = Inl e \<Longrightarrow> e = TypeError"
  by (auto simp: jsonError_def split: sum.splits dest: createHeaders_Inl)

lemma jsonError_Inr:
  assumes "jsonError cfg st msg = Inr r"
  shows "status r = st" and "claimedHeaders cfg (headers r)" and "payload r = errorBody msg"
  using assms
  by (auto simp: jsonError_def errorBody_def split: sum.splits dest: createHeaders_claimed(1))


lemma headers_get_replaceHeader:
  "headers_get (replaceHeader k x hs) k' = (if k' = k then Some x else headers_get hs k')"
  by (induction hs) (auto simp: headers_get_def)

lemma claimedHeaders_Content_Length:
  "claimedHeaders cfg hs \<Longrightarrow> claimedHeaders cfg (replaceHeader ''Content-Length'' x hs)"
  by (simp add: claimedHeaders_def headers_get_replaceHeader)

lemma handleOptions_Inr:
  assumes "handleOptions cfg = Inr r"
  shows "status r = 204" and "claimedHeaders cfg (headers r)"
proof -
  from assms obtain hs where hs: "createHeaders cfg ''text/plain'' = Inr hs"
    and r: "r = \<lparr>status = 204, headers = replaceHeader ''Content-Length'' ''0'' hs,
                   payload = NoBody\<rparr>"
    by (auto simp: handleOptions_def headers_set_def literal_header_values split: sum.splits)
  show "status r = 204" using r by simp
  show "claimedHeaders cfg (headers r)"
    using claimedHeaders_Content_Length[OF createHeaders_claimed(1)[OF hs]] r by simp
qed


lemma createRedirect_Inr:
  assumes "createRedirect req p = Inr r"
  shows "status r = 302" and "\<exists>u. headers r = [(''Location'', u)]" and "payload r = NoBody"
  using assms by (auto simp: createRedirect_def split: sum.splits)

section \<open>The \<^verbatim>\<open>try\<close> and \<^verbatim>\<open>catch\<close> blocks\<close>

lemma catchBlock_cases:
  assumes "\<And>t. asError e = Inl t \<Longrightarrow> P (Inl t, s)"
    and "\<And>er x s'. asError e = Inr er \<Longrightarrow> emitEvent cfg (ERROR p er ctx) s = (Some x, s')
           \<Longrightarrow> P (Inl x, s')"
    and "\<And>er s'. asError e = Inr er \<Longrightarrow> emitEvent cfg (ERROR p er ctx) s = (None, s')
           \<Longrightarrow> P (jsonError cfg 500 ''Internal server error'', s')"
  shows "P (catchBlock cfg p ctx e s)"
proof (cases "asError e")
  case (Inl t)
  then show ?thesis using assms(1) by (simp add: catchBlock_def)
next
  case (Inr er)
  show ?thesis
  proof (cases "emitEvent cfg (ERROR p er ctx) s")
    case (Pair x s')
    then show ?thesis using Inr assms(2,3) by (cases x) (simp_all add: catchBlock_def)
  qed
qed

text \<open>
  A guarded step: emit an event, then build the response; what the sink or the
  construction throws goes to the \<^verbatim>\<open>catch\<close> block.
\<close>

lemma try_cases:
  assumes "\<And>e s'. emitEvent cfg ev s = (Some e, s') \<Longrightarrow> P (catchBlock cfg p ctx e s')"
    and "\<And>e s'. emitEvent cfg ev s = (None, s') \<Longrightarrow> x = Inl e \<Longrightarrow> P (catchBlock cfg p ctx e s')"
    and "\<And>r s'. emitEvent cfg ev s = (None, s') \<Longrightarrow> x = Inr r \<Longrightarrow> P (g r, s')"
  shows "P (case emitEvent cfg ev s of
              (Some e, s') \<Rightarrow> catchBlock cfg p ctx e s'
            | (None, s') \<Rightarrow>
                (case x of Inl e \<Rightarrow> catchBlock cfg p ctx e s' | Inr r \<Rightarrow> (g r, s')))"
proof (cases "emitEvent cfg ev s")
  case (Pair t s')
  show ?thesis
  proof (cases t)
    case None
    then show ?thesis using Pair assms(2,3) by (cases x) simp_all
  next
    case (Some e)
    then show ?thesis using Pair assms(1) by simp
  qed
qed

text \<open>
  What a \<^verbatim>\<open>serve\<close> function ends in: its \<^verbatim>\<open>catch\<close> block, entered with what the
  provider threw, with what the sink threw, or with the \<^verbatim>\<open>TypeError\<close> of
  \<^verbatim>\<open>createHeaders\<close>; or a response of its own.
\<close>

lemma serveIndex_cases:
  assumes "\<And>e. getSkills prov = Inl e \<Longrightarrow> P (catchBlock cfg p None e s)"
    and "\<And>ev e s'. emitEvent cfg ev s = (Some e, s') \<Longrightarrow> P (catchBlock cfg p None e s')"
    and "\<And>s'. P (catchBlock cfg p None TypeError s')"
    and "\<And>hs b s'. createHeaders cfg ''application/json'' = Inr hs
           \<Longrightarrow> P (Inr \<lparr>status = 200, headers = hs, payload = b\<rparr>, s')"
  shows "P (serveIndex cfg prov p s)"
proof (cases "getSkills prov")
  case (Inl e)
  then show ?thesis using assms(1) by (simp add: serveIndex_def)
next
  case (Inr skills)
  show ?thesis
    unfolding serveIndex_def Let_def Inr sum.case
    by (rule try_cases) (use assms(2,3,4) in \<open>auto dest: createHeaders_Inl\<close>)
qed

lemma serveSkillMd_cases:
  assumes "\<And>e. getSkills prov = Inl e \<Longrightarrow> P (catchBlock cfg p ctx e s)"
    and "\<And>ev e s'. emitEvent cfg ev s = (Some e, s') \<Longrightarrow> P (catchBlock cfg p ctx e s')"
    and "\<And>s'. P (catchBlock cfg p ctx TypeError s')"
    and "\<And>hs b s'. createHeaders cfg ''text/markdown; charset=utf-8'' = Inr hs
           \<Longrightarrow> P (Inr \<lparr>status = 200, headers = hs, payload = b\<rparr>, s')"
    and "\<And>r s'. jsonError cfg 404 ''Skill not found'' = Inr r \<Longrightarrow> P (Inr r, s')"
    and "ctx = Some [(''skillName'', n)]"
  shows "P (serveSkillMd cfg prov n p s)"
proof (cases "getSkills prov")
  case (Inl e)
  then show ?thesis using assms(1,6) by (simp add: serveSkillMd_def)
next
  case (Inr skills)
  show ?thesis
  proof (cases "find (\<lambda>sk. name sk = n) skills")
    case None
    show ?thesis
      unfolding serveSkillMd_def Let_def Inr None sum.case option.case assms(6)[symmetric]
      by (rule try_cases) (use assms(2,3,5) in \<open>auto dest: jsonError_Inl\<close>)
  next
    case (Some sk)
    show ?thesis
      unfolding serveSkillMd_def Let_def Inr Some sum.case option.case assms(6)[symmetric]
      by (rule try_cases) (use assms(2,3,4) in \<open>auto dest: createHeaders_Inl\<close>)
  qed
qed

lemma serveSkillFile_cases:
  assumes "\<And>e. getSkillFile prov n f = Inl e \<Longrightarrow> P (catchBlock cfg p ctx e s)"
    and "\<And>ev e s'. emitEvent cfg ev s = (Some e, s') \<Longrightarrow> P (catchBlock cfg p ctx e s')"
    and "\<And>s'. P (catchBlock cfg p ctx TypeError s')"
    and "\<And>ct hs b s'. createHeaders cfg ct = Inr hs
           \<Longrightarrow> P (Inr \<lparr>status = 200, headers = hs, payload = b\<rparr>, s')"
    and "\<And>r s'. jsonError cfg 404 ''File not found'' = Inr r \<Longrightarrow> P (Inr r, s')"
    and "ctx = Some [(''skillName'', n), (''filePath'', f)]"
  shows "P (serveSkillFile cfg prov n f p s)"
proof (cases "getSkillFile prov n f")
  case (Inl e)
  then show ?thesis using assms(1,6) by (simp add: serveSkillFile_def)
next
  case (Inr c)
  show ?thesis
  proof (cases c)
    case None
    show ?thesis
      unfolding serveSkillFile_def Let_def Inr None sum.case option.case assms(6)[symmetric]
      by (rule try_cases) (use assms(2,3,5) in \<open>auto dest: jsonError_Inl\<close>)
  next
    case (Some content)
    show ?thesis
      unfolding serveSkillFile_def Let_def Inr Some sum.case option.case assms(6)[symmetric]
      by (rule try_cases) (use assms(2,3,4) in \<open>auto dest: createHeaders_Inl\<close>)
  qed
qed

section \<open>The statuses and headers of the responses\<close>

lemma emitThenError_Inr:
  assumes "fst (emitThenError cfg ev st msg s) = Inr r"
  shows "status r = st" and "claimedHeaders cfg (headers r)"
proof -
  have "\<forall>r. fst (emitThenError cfg ev st msg s) = Inr r
          \<longrightarrow> status r = st \<and> claimedHeaders cfg (headers r)"
    by (rule emitThenError_cases) (auto dest: jsonError_Inr)
  with assms show "status r = st" and "claimedHeaders cfg (headers r)" by blast+
qed

lemma catchBlock_Inr:
  assumes "fst (catchBlock cfg p ctx e s) = Inr r"
  shows "status r = 500" and "claimedHeaders cfg (headers r)"
proof -
  have "\<forall>r. fst (catchBlock cfg p ctx e s) = Inr r
          \<longrightarrow> status r = 500 \<and> claimedHeaders cfg (headers r)"
    by (rule catchBlock_cases) (auto dest: jsonError_Inr)
  with assms show "status r = 500" and "claimedHeaders cfg (headers r)" by blast+
qed

lemma serveIndex_Inr:
  assumes "fst (serveIndex cfg prov p s) = Inr r"
  shows "status r = 200 \<or> status r = 500" and "claimedHeaders cfg (headers r)"
proof -
  have "\<forall>r. fst (serveIndex cfg prov p s) = Inr r
          \<longrightarrow> (status r = 200 \<or> status r = 500) \<and> claimedHeaders cfg (headers r)"
    by (rule serveIndex_cases) (auto dest: catchBlock_Inr createHeaders_claimed(1))
  with assms show "status r = 200 \<or> status r = 500" and "claimedHeaders cfg (headers r)"
    by blast+
qed

lemma serveSkillMd_Inr:
  assumes "fst (serveSkillMd cfg prov n p s) = Inr r"
  shows "status r = 200 \<or> status r = 404 \<or> status r = 500"
    and "claimedHeaders cfg (headers r)"
proof -
  have "\<forall>r. fst (serveSkillMd cfg prov n p s) = Inr r
          \<longrightarrow> (status r = 200 \<or> status r = 404 \<or> status r = 500)
              \<and> claimedHeaders cfg (headers r)"
    by (rule serveSkillMd_cases[where ctx = "Some [(''skillName'', n)]"])
       (auto dest: catchBlock_Inr createHeaders_claimed(1) jsonError_Inr)
  with assms show "status r = 200 \<or> status r = 404 \<or> status r = 500"
    and "claimedHeaders cfg (headers r)"
    by blast+
qed

lemma serveSkillFile_Inr:
  assumes "fst (serveSkillFile cfg prov n f p s) = Inr r"
  shows "status r = 200 \<or> status r = 404 \<or> status r = 500"
    and "claimedHeaders cfg (headers r)"
proof -
  have "\<forall>r. fst (serveSkillFile cfg prov n f p s) = Inr r
          \<longrightarrow> (status r = 200 \<or> status r = 404 \<or> status r = 500)
              \<and> claimedHeaders cfg (headers r)"
    by (rule serveSkillFile_cases[where ctx = "Some [(''skillName'', n), (''filePath'', f)]"])
       (auto dest: catchBlock_Inr createHeaders_claimed(1) jsonError_Inr)
  with assms show "status r = 200 \<or> status r = 404 \<or> status r = 500"
    and "claimedHeaders cfg (headers r)"
    by blast+
qed

lemma handler_Inr:
  fixes s :: 's
  assumes "fst (handler cfg prov req s) = Inr r"
  shows "(status r = 302 \<and> (\<exists>u. headers r = [(''Location'', u)]) \<and> payload r = NoBody) \<or>
         (status r \<in> {200, 204, 400, 404, 405, 500} \<and> claimedHeaders cfg (headers r))"
proof -
  define P :: "(thrown + response) \<times> 's \<Rightarrow> bool" where
    "P = (\<lambda>out. \<forall>r. fst out = Inr r \<longrightarrow>
           (status r = 302 \<and> (\<exists>u. headers r = [(''Location'', u)]) \<and> payload r = NoBody) \<or>
           (status r \<in> {200, 204, 400, 404, 405, 500} \<and> claimedHeaders cfg (headers r)))"
  have "P (handler cfg prov req s)"
  proof (rule handler_cases)
    show "P (handleOptions cfg, s)"
      unfolding P_def using handleOptions_Inr[of cfg] by auto
    show "P (jsonError cfg 405 ''Method not allowed'', s)"
      unfolding P_def using jsonError_Inr[of cfg 405 "''Method not allowed''"] by auto
    show "P (createRedirect req p, s)" for p
      unfolding P_def using createRedirect_Inr[of req p] by auto
    show "P (serveIndex cfg prov (url_pathname req) s)"
      unfolding P_def using serveIndex_Inr[of cfg prov "url_pathname req" s] by auto
    show "P (serveSkillMd cfg prov n (url_pathname req) s)" for n
      unfolding P_def using serveSkillMd_Inr[of cfg prov n "url_pathname req" s] by auto
    show "P (serveSkillFile cfg prov n f (url_pathname req) s)" for n f
      unfolding P_def using serveSkillFile_Inr[of cfg prov n f "url_pathname req" s] by auto
    show "P (emitThenError cfg ev 400 msg s)" for ev msg
      unfolding P_def using emitThenError_Inr[of cfg ev 400 msg s] by auto
    show "P (emitThenError cfg ev 404 msg s)" for ev msg
      unfolding P_def using emitThenError_Inr[of cfg ev 404 msg s] by auto
  qed
  with assms show ?thesis unfolding P_def by blast
qed







section \<open>Routes\<close>

lemma notSlash_all: "CHR ''/'' \<notin> set seg \<longleftrightarrow> list_all notSlash seg"
  by (auto simp: list_all_iff notSlash_def)

lemma segment_split:
  assumes "CHR ''/'' \<notin> set seg"
  shows "takeWhile notSlash (seg @ CHR ''/'' # rest) = seg"
    and "dropWhile notSlash (seg @ CHR ''/'' # rest) = CHR ''/'' # rest"
    and "takeWhile notSlash seg = seg"
    and "dropWhile notSlash seg = []"
  using assms by (induction seg) (auto simp: notSlash_def)

lemma skillMdMatch_shape:
  assumes "seg \<noteq> []" and "CHR ''/'' \<notin> set seg"
  shows "skillMdMatch (''/'' @ seg @ ''/'' @ rest) = (if rest = ''SKILL.md'' then Some seg else None)"
  using assms by (simp add: skillMdMatch_def segment_split)

lemma skillFileMatch_shape:
  assumes "seg \<noteq> []" and "CHR ''/'' \<notin> set seg" and "rest \<noteq> []" and "\<not> list_ex lineTerminator rest"
  shows "skillFileMatch (''/'' @ seg @ ''/'' @ rest) = Some (seg, rest)"
  using assms by (simp add: skillFileMatch_def segment_split)

lemma single_segment_matches:
  assumes "seg \<noteq> []" and "CHR ''/'' \<notin> set seg"
  shows "skillMdMatch (''/'' @ seg) = None"
    and "skillFileMatch (''/'' @ seg) = None"
    and "skillDirMatch (''/'' @ seg) = Some seg"
  using assms by (auto simp: skillMdMatch_def skillFileMatch_def skillDirMatch_def segment_split notSlash_def)

lemma two_segments_not_fixed:
  assumes "seg \<noteq> []" and "CHR ''/'' \<notin> set seg"
  shows "''/'' @ seg @ ''/'' @ rest \<noteq> ''/''"
    and "''/'' @ seg @ ''/'' @ rest \<noteq> []"
    and "''/'' @ seg @ ''/'' @ rest \<noteq> ''/index.json''"
proof -
  show "''/'' @ seg @ ''/'' @ rest \<noteq> ''/''" using assms by simp
  show "''/'' @ seg @ ''/'' @ rest \<noteq> []" by simp
  show "''/'' @ seg @ ''/'' @ rest \<noteq> ''/index.json''"
  proof
    assume "''/'' @ seg @ ''/'' @ rest = ''/index.json''"
    then have "seg @ CHR ''/'' # rest = ''index.json''" by simp
    then have "CHR ''/'' \<in> set ''index.json''" by (metis in_set_conv_decomp)
    then show False by simp
  qed
qed

lemma valid_name_chars:
  assumes "isValidSkillName n"
  shows "n \<noteq> []" and "CHR ''/'' \<notin> set n" and "CHR ''.'' \<notin> set n" and "last n \<noteq> CHR ''/''"
proof -
  from assms have g: "1 \<le> length n" "list_all nameClass n"
    unfolding isValidSkillName_alt skillNameGrammar_alt by simp_all
  show ne: "n \<noteq> []" using g(1) by auto
  have a: "\<not> nameClass (CHR ''/'')" "\<not> nameClass (CHR ''.'')"
    by (simp_all add: nameClass_def charCode_def)
  show "CHR ''/'' \<notin> set n" using g(2) a(1) by (auto simp: list_all_iff)
  then show "last n \<noteq> CHR ''/''" using ne last_in_set by metis
  show "CHR ''.'' \<notin> set n" using g(2) a(2) by (auto simp: list_all_iff)
qed


lemma find_name:
  "(n \<in> name ` set skills \<longrightarrow> (\<exists>sk. find (\<lambda>x. name x = n) skills = Some sk \<and> name sk = n \<and> sk \<in> set skills)) \<and>
   (n \<notin> name ` set skills \<longrightarrow> find (\<lambda>x. name x = n) skills = None)"
  by (induction skills) auto

lemma endsWith_char: "endsWith s [c] \<longleftrightarrow> s \<noteq> [] \<and> last s = c"
  by (cases s rule: rev_cases) (auto simp: endsWith_def)

lemma handler_get:
  assumes "toUpperCase (req_method req) = ''GET'' \<or> toUpperCase (req_method req) = ''HEAD''"
  shows "handler cfg prov req s
           = routeRequest cfg prov req (relativePath cfg (url_pathname req)) (url_pathname req) s"
  using assms by (auto simp: handler_def Let_def)

text \<open>Where the handler sends a request, by the shape of its relative path.\<close>

lemma route_invalid_name:
  assumes "toUpperCase (req_method req) = ''GET'' \<or> toUpperCase (req_method req) = ''HEAD''"
    and "seg \<noteq> []" and "CHR ''/'' \<notin> set seg"
    and "relativePath cfg (url_pathname req) = ''/'' @ seg @ ''/'' @ rest"
    and "rest \<noteq> []" and "\<not> list_ex lineTerminator rest" and "\<not> isValidSkillName seg"
  shows "handler cfg prov req s =
           emitThenError cfg (NOT_FOUND (url_pathname req) (Some seg) None)
             400 ''Invalid skill name'' s"
  unfolding handler_get[OF assms(1)] routeRequest_def assms(4)
  using two_segments_not_fixed[OF assms(2,3), of rest]
    skillFileMatch_shape[OF assms(2,3,5,6)] skillMdMatch_shape[OF assms(2,3), of rest] assms(2,5,7)
  by simp

lemma route_invalid_path:
  assumes "toUpperCase (req_method req) = ''GET'' \<or> toUpperCase (req_method req) = ''HEAD''"
    and "seg \<noteq> []" and "CHR ''/'' \<notin> set seg"
    and "relativePath cfg (url_pathname req) = ''/'' @ seg @ ''/'' @ rest"
    and "rest \<noteq> []" and "\<not> list_ex lineTerminator rest" and "isValidSkillName seg"
    and "\<not> isValidFilePath rest"
  shows "handler cfg prov req s =
           emitThenError cfg (NOT_FOUND (url_pathname req) (Some seg) (Some rest))
             400 ''Invalid file path'' s"
proof -
  have "isValidFilePath ''SKILL.md''"
    by (simp add: isValidFilePath_def startsWith_def invalidChar_def charCode_def)
  with assms(8) have "rest \<noteq> ''SKILL.md''" by blast
  then have m: "skillMdMatch (''/'' @ seg @ ''/'' @ rest) = None"
    using skillMdMatch_shape[OF assms(2,3), of rest] by simp
  show ?thesis
    unfolding handler_get[OF assms(1)] routeRequest_def assms(4)
    using two_segments_not_fixed[OF assms(2,3), of rest]
      skillFileMatch_shape[OF assms(2,3,5,6)] m assms(2,5,7,8)
    by simp
qed

lemma route_single_invalid:
  assumes "toUpperCase (req_method req) = ''GET'' \<or> toUpperCase (req_method req) = ''HEAD''"
    and "seg \<noteq> []" and "CHR ''/'' \<notin> set seg"
    and "relativePath cfg (url_pathname req) = ''/'' @ seg"
    and "seg \<noteq> ''index.json''" and "\<not> isValidSkillName seg"
  shows "handler cfg prov req s =
           emitThenError cfg (NOT_FOUND (url_pathname req) None None) 404 ''Not found'' s"
  unfolding handler_get[OF assms(1)] routeRequest_def handleSkillDir_def assms(4)
  using single_segment_matches[OF assms(2,3)] assms(2,5,6)
  by simp

lemma route_skillDir:
  assumes "toUpperCase (req_method req) = ''GET'' \<or> toUpperCase (req_method req) = ''HEAD''"
    and "relativePath cfg (url_pathname req) = ''/'' @ n" and "isValidSkillName n"
  shows "handler cfg prov req s =
           (createRedirect req (normalizedBasePath cfg @ ''/'' @ n @ ''/SKILL.md''), s)"
proof -
  note c = valid_name_chars[OF assms(3)]
  have ni: "''/'' @ n \<noteq> ''/index.json''"
  proof
    assume "''/'' @ n = ''/index.json''"
    then have "n = ''index.json''" by simp
    then show False using c(3) by simp
  qed
  show ?thesis
    unfolding handler_get[OF assms(1)] routeRequest_def handleSkillDir_def assms(2)
    using single_segment_matches[OF c(1,2)] c(1) assms(3) ni by simp
qed


lemma route_skillMd:
  assumes "toUpperCase (req_method req) = ''GET'' \<or> toUpperCase (req_method req) = ''HEAD''"
    and "relativePath cfg (url_pathname req) = ''/'' @ n @ ''/SKILL.md''"
    and "isValidSkillName n"
  shows "handler cfg prov req s = serveSkillMd cfg prov n (url_pathname req) s"
proof -
  note c = valid_name_chars[OF assms(3)]
  have m: "skillMdMatch (relativePath cfg (url_pathname req)) = Some n"
    unfolding assms(2) using skillMdMatch_shape[OF c(1,2), of "''SKILL.md''"] by simp
  have nf: "relativePath cfg (url_pathname req) \<noteq> ''/''"
    "relativePath cfg (url_pathname req) \<noteq> []"
    "relativePath cfg (url_pathname req) \<noteq> ''/index.json''"
    unfolding assms(2) using two_segments_not_fixed[OF c(1,2), of "''SKILL.md''"] by simp_all
  show ?thesis
    unfolding handler_get[OF assms(1)] routeRequest_def using m nf c(1) assms(3) by simp
qed


text \<open>The source's helpers in the terms the properties are stated with.\<close>

lemma emitThenError_notify:
  "emitThenError cfg ev st msg s = notifyThenRespond cfg ev st msg s"
  unfolding emitThenError_def notifyThenRespond_def emitEvent_sinkCall jsonError_respondWith
  by (rule refl)

lemma catchBlock_notify:
  "catchBlock cfg p ctx e s =
     (case asError e of
        Inl t \<Rightarrow> (Inl t, s)
      | Inr er \<Rightarrow> notifyThenRespond cfg (ERROR p er ctx) 500 ''Internal server error'' s)"
  unfolding catchBlock_def notifyThenRespond_def emitEvent_sinkCall jsonError_respondWith
  by (rule refl)


lemma serveSkillMd_found:
  assumes "getSkills prov = Inr skills" and "find (\<lambda>x. name x = n) skills = Some sk"
  shows "sinkCall cfg (SKILL_REQUESTED p n) s = (None, s') \<Longrightarrow>
         createHeaders cfg ''text/markdown; charset=utf-8'' = Inr hs \<Longrightarrow>
         serveSkillMd cfg prov n p s
           = (Inr \<lparr>status = 200, headers = hs, payload = Text (reconstructSkillMd sk)\<rparr>, s')"
    and "sinkCall cfg (SKILL_REQUESTED p n) s = (Some x, s') \<Longrightarrow>
         serveSkillMd cfg prov n p s = catchBlock cfg p (Some [(''skillName'', n)]) x s'"
  using assms by (simp_all add: serveSkillMd_def emitEvent_sinkCall)

lemma serveSkillMd_missing:
  assumes "getSkills prov = Inr skills" and "find (\<lambda>x. name x = n) skills = None"
  shows "sinkCall cfg (NOT_FOUND p (Some n) None) s = (None, s') \<Longrightarrow>
         createHeaders cfg ''application/json'' = Inr hs \<Longrightarrow>
         serveSkillMd cfg prov n p s
           = (Inr \<lparr>status = 404, headers = hs, payload = errorBody ''Skill not found''\<rparr>, s')"
    and "sinkCall cfg (NOT_FOUND p (Some n) None) s = (Some x, s') \<Longrightarrow>
         serveSkillMd cfg prov n p s = catchBlock cfg p (Some [(''skillName'', n)]) x s'"
  using assms by (simp_all add: serveSkillMd_def emitEvent_sinkCall jsonError_def errorBody_def)

section \<open>The event sink\<close>




section \<open>Response headers\<close>

text \<open>
  C2. Every response of the handler is a 302 redirect that carries a \<open>Location\<close> header
  and no other header, or a response with another status that carries a
  \<open>Content-Type\<close> header, a \<open>Cache-Control\<close> header whose value is the configured
  cache-control value without its leading and trailing whitespace, and the three
  CORS headers \<open>Access-Control-Allow-Origin\<close>, \<open>Access-Control-Allow-Methods\<close>
  (\<open>GET, HEAD, OPTIONS\<close>) and \<open>Access-Control-Allow-Headers\<close> (\<open>Content-Type\<close>) when CORS
  is enabled, none of the three when it is disabled.
\<close>

theorem response_headers:
  "fst (handler cfg prov req s) = Inr r \<longrightarrow>
     (status r = 302 \<and> (\<exists>u. headers r = [(''Location'', u)])) \<or>
     (status r \<noteq> 302 \<and> claimedHeaders cfg (headers r))"
proof
  assume "fst (handler cfg prov req s) = Inr r"
  from handler_Inr[OF this]
  show "(status r = 302 \<and> (\<exists>u. headers r = [(''Location'', u)])) \<or>
        (status r \<noteq> 302 \<and> claimedHeaders cfg (headers r))"
    by auto
qed

theorem response_headers_witness:
  "fst (handler (default_config\<lparr>cors := CorsFalse\<rparr>) testProvider
         (localRequest ''GET'' ''/.well-known/skills/git-workflow/SKILL.md'') ()) =
     Inr \<lparr>status = 200,
          headers = [(''Content-Type'', ''text/markdown; charset=utf-8''),
                     (''Cache-Control'', ''public, max-age=3600'')],
          payload = Text (reconstructSkillMd gitWorkflow)\<rparr> \<and>
   claimedHeaders (default_config\<lparr>cors := CorsFalse\<rparr> :: unit config)
     [(''Content-Type'', ''text/markdown; charset=utf-8''),
      (''Cache-Control'', ''public, max-age=3600'')]"
proof -
  have h: "fst (handler (default_config\<lparr>cors := CorsFalse\<rparr>) testProvider
         (localRequest ''GET'' ''/.well-known/skills/git-workflow/SKILL.md'') ()) =
     Inr \<lparr>status = 200,
          headers = [(''Content-Type'', ''text/markdown; charset=utf-8''),
                     (''Cache-Control'', ''public, max-age=3600'')],
          payload = Text (reconstructSkillMd gitWorkflow)\<rparr>"
    by code_simp
  from response_headers[where cfg = "default_config\<lparr>cors := CorsFalse\<rparr>"
      and prov = testProvider
      and req = "localRequest ''GET'' ''/.well-known/skills/git-workflow/SKILL.md''"
      and s = "()"
      and r = "\<lparr>status = 200,
          headers = [(''Content-Type'', ''text/markdown; charset=utf-8''),
                     (''Cache-Control'', ''public, max-age=3600'')],
          payload = Text (reconstructSkillMd gitWorkflow)\<rparr>"] h
  show ?thesis by simp
qed

text \<open>
  C2, the claim as written fails twice. A redirect has \<open>Location\<close> and nothing else:
  the response to \<open>GET /.well-known/skills/\<close> has no \<open>Content-Type\<close>, no
  \<open>Cache-Control\<close> and no CORS header, although CORS is enabled by default. And the
  \<open>Cache-Control\<close> header is not always equal to the configured value: the value
  \<open>" no-store "\<close> is served as \<open>"no-store"\<close>.
\<close>

theorem redirect_headers_counterexample:
  "handler default_config testProvider (localRequest ''GET'' ''/.well-known/skills/'') () =
     (Inr \<lparr>status = 302,
           headers = [(''Location'', ''http://localhost/.well-known/skills/index.json'')],
           payload = NoBody\<rparr>, ()) \<and>
   headers_get [(''Location'', ''http://localhost/.well-known/skills/index.json'')]
     ''Content-Type'' = None \<and>
   headers_get [(''Location'', ''http://localhost/.well-known/skills/index.json'')]
     ''Cache-Control'' = None \<and>
   headers_get [(''Location'', ''http://localhost/.well-known/skills/index.json'')]
     ''Access-Control-Allow-Origin'' = None \<and>
   cors (default_config :: unit config) \<noteq> CorsFalse \<and>
   handler (default_config\<lparr>cacheControl := '' no-store ''\<rparr>) testProvider
       (localRequest ''GET'' ''/.well-known/skills/git-workflow/SKILL.md'') () =
     (Inr \<lparr>status = 200,
           headers = [(''Content-Type'', ''text/markdown; charset=utf-8''),
                      (''Cache-Control'', ''no-store''),
                      (''Access-Control-Allow-Origin'', ''*''),
                      (''Access-Control-Allow-Methods'', ''GET, HEAD, OPTIONS''),
                      (''Access-Control-Allow-Headers'', ''Content-Type'')],
           payload = Text (reconstructSkillMd gitWorkflow)\<rparr>, ()) \<and>
   ''no-store'' \<noteq> '' no-store ''"
  by (intro conjI; code_simp)

section \<open>Invalid names and paths\<close>

text \<open>
  C3. For a \<open>GET\<close> request whose relative path is \<open>/{segment}/{rest}\<close> (the segment
  non-empty and free of slashes, the rest non-empty, which covers
  \<open>/{segment}/SKILL.md\<close>), an invalid segment is reported and answered as follows: the
  sink, if any, is called with a \<open>NOT_FOUND\<close> event that carries the segment as skill
  name and no file path, even when a file path was parsed; when the call returns, the
  response is 400 with the JSON body \<open>{error: "Invalid skill name"}\<close>, and when it
  throws, the handler raises what the sink threw and returns nothing. A valid segment
  with an invalid rest is treated likewise, with a \<open>NOT_FOUND\<close> event that carries
  the skill name and the file path, and 400 with \<open>{error: "Invalid file path"}\<close>. For a
  path \<open>/{segment}\<close> with an invalid segment, the event is \<open>NOT_FOUND\<close> without
  identifiers and the response is the generic 404 with \<open>{error: "Not found"}\<close>. The
  type tag of these events is \<open>NOT_FOUND\<close>.

  The routes are tried in order, so the single segment is not \<open>index.json\<close>, which is
  the index route; the pattern's \<^verbatim>\<open>.\<close> matches no line terminator, and a URL path name
  has none.
\<close>

theorem invalid_segment_responses:
  assumes "toUpperCase (req_method req) = ''GET''"
    and "seg \<noteq> []" and "CHR ''/'' \<notin> set seg"
  shows
   "(relativePath cfg (url_pathname req) = ''/'' @ seg @ ''/'' @ rest \<and> rest \<noteq> [] \<and>
       \<not> list_ex lineTerminator rest \<and> \<not> isValidSkillName seg \<longrightarrow>
       handler cfg prov req s =
         notifyThenRespond cfg (NOT_FOUND (url_pathname req) (Some seg) None)
           400 ''Invalid skill name'' s) \<and>
    (relativePath cfg (url_pathname req) = ''/'' @ seg @ ''/'' @ rest \<and> rest \<noteq> [] \<and>
       \<not> list_ex lineTerminator rest \<and> isValidSkillName seg \<and> \<not> isValidFilePath rest \<longrightarrow>
       handler cfg prov req s =
         notifyThenRespond cfg (NOT_FOUND (url_pathname req) (Some seg) (Some rest))
           400 ''Invalid file path'' s) \<and>
    (relativePath cfg (url_pathname req) = ''/'' @ seg \<and> seg \<noteq> ''index.json'' \<and>
       \<not> isValidSkillName seg \<longrightarrow>
       handler cfg prov req s =
         notifyThenRespond cfg (NOT_FOUND (url_pathname req) None None) 404 ''Not found'' s) \<and>
    eventType (NOT_FOUND (url_pathname req) (Some seg) None) = ''NOT_FOUND'' \<and>
    eventType (NOT_FOUND (url_pathname req) (Some seg) (Some rest)) = ''NOT_FOUND'' \<and>
    eventType (NOT_FOUND (url_pathname req) None None) = ''NOT_FOUND''"
proof (intro conjI impI)
  assume "relativePath cfg (url_pathname req) = ''/'' @ seg @ ''/'' @ rest \<and> rest \<noteq> [] \<and>
       \<not> list_ex lineTerminator rest \<and> \<not> isValidSkillName seg"
  then show "handler cfg prov req s =
         notifyThenRespond cfg (NOT_FOUND (url_pathname req) (Some seg) None)
           400 ''Invalid skill name'' s"
    using route_invalid_name[OF disjI1[OF assms(1)] assms(2,3), of cfg rest prov s]
    by (simp add: emitThenError_notify)
next
  assume "relativePath cfg (url_pathname req) = ''/'' @ seg @ ''/'' @ rest \<and> rest \<noteq> [] \<and>
       \<not> list_ex lineTerminator rest \<and> isValidSkillName seg \<and> \<not> isValidFilePath rest"
  then show "handler cfg prov req s =
         notifyThenRespond cfg (NOT_FOUND (url_pathname req) (Some seg) (Some rest))
           400 ''Invalid file path'' s"
    using route_invalid_path[OF disjI1[OF assms(1)] assms(2,3), of cfg rest prov s]
    by (simp add: emitThenError_notify)
next
  assume "relativePath cfg (url_pathname req) = ''/'' @ seg \<and> seg \<noteq> ''index.json'' \<and>
       \<not> isValidSkillName seg"
  then show "handler cfg prov req s =
         notifyThenRespond cfg (NOT_FOUND (url_pathname req) None None) 404 ''Not found'' s"
    using route_single_invalid[OF disjI1[OF assms(1)] assms(2,3), of cfg prov s]
    by (simp add: emitThenError_notify)
qed simp_all

theorem invalid_segment_responses_witness:
  "handler (default_config\<lparr>onEvent := Some recordingSink\<rparr>) testProvider
       (localRequest ''GET'' ''/.well-known/skills/Invalid_Name/SKILL.md'') [] =
     (Inr \<lparr>status = 400, headers = defaultHeaders ''application/json'',
           payload = errorBody ''Invalid skill name''\<rparr>,
      [NOT_FOUND ''/.well-known/skills/Invalid_Name/SKILL.md'' (Some ''Invalid_Name'') None]) \<and>
   handler (default_config\<lparr>onEvent := Some recordingSink\<rparr>) testProvider
       (localRequest ''GET'' ''/.well-known/skills/Invalid_Name/notes.txt'') [] =
     (Inr \<lparr>status = 400, headers = defaultHeaders ''application/json'',
           payload = errorBody ''Invalid skill name''\<rparr>,
      [NOT_FOUND ''/.well-known/skills/Invalid_Name/notes.txt'' (Some ''Invalid_Name'') None]) \<and>
   handler (default_config\<lparr>onEvent := Some recordingSink\<rparr>) testProvider
       (localRequest ''GET'' ''/.well-known/skills/git-workflow/a..b'') [] =
     (Inr \<lparr>status = 400, headers = defaultHeaders ''application/json'',
           payload = errorBody ''Invalid file path''\<rparr>,
      [NOT_FOUND ''/.well-known/skills/git-workflow/a..b'' (Some ''git-workflow'')
         (Some ''a..b'')]) \<and>
   handler (default_config\<lparr>onEvent := Some recordingSink\<rparr>) testProvider
       (localRequest ''GET'' ''/.well-known/skills/Invalid_Name'') [] =
     (Inr \<lparr>status = 404, headers = defaultHeaders ''application/json'',
           payload = errorBody ''Not found''\<rparr>,
      [NOT_FOUND ''/.well-known/skills/Invalid_Name'' None None])"
proof -
  let ?cfg = "default_config\<lparr>onEvent := Some recordingSink\<rparr>"
  have m: "toUpperCase (req_method (localRequest ''GET'' p)) = ''GET''" for p by code_simp
  have u: "url_pathname (localRequest ''GET'' p) = p" for p by (simp add: localRequest_def)
  have r1: "relativePath ?cfg ''/.well-known/skills/Invalid_Name/SKILL.md''
            = ''/'' @ ''Invalid_Name'' @ ''/'' @ ''SKILL.md''" by code_simp
  have r2: "relativePath ?cfg ''/.well-known/skills/Invalid_Name/notes.txt''
            = ''/'' @ ''Invalid_Name'' @ ''/'' @ ''notes.txt''" by code_simp
  have r3: "relativePath ?cfg ''/.well-known/skills/git-workflow/a..b''
            = ''/'' @ ''git-workflow'' @ ''/'' @ ''a..b''" by code_simp
  have r4: "relativePath ?cfg ''/.well-known/skills/Invalid_Name''
            = ''/'' @ ''Invalid_Name''" by code_simp
  have v: "\<not> isValidSkillName ''Invalid_Name''" "isValidSkillName ''git-workflow''"
    "\<not> isValidFilePath ''a..b''" "\<not> list_ex lineTerminator ''SKILL.md''"
    "\<not> list_ex lineTerminator ''notes.txt''" "\<not> list_ex lineTerminator ''a..b''"
    by code_simp+
  have n1: "notifyThenRespond ?cfg
              (NOT_FOUND ''/.well-known/skills/Invalid_Name/SKILL.md'' (Some ''Invalid_Name'') None)
              400 ''Invalid skill name'' [] =
     (Inr \<lparr>status = 400, headers = defaultHeaders ''application/json'',
           payload = errorBody ''Invalid skill name''\<rparr>,
      [NOT_FOUND ''/.well-known/skills/Invalid_Name/SKILL.md'' (Some ''Invalid_Name'') None])"
    by code_simp
  have n2: "notifyThenRespond ?cfg
              (NOT_FOUND ''/.well-known/skills/Invalid_Name/notes.txt'' (Some ''Invalid_Name'') None)
              400 ''Invalid skill name'' [] =
     (Inr \<lparr>status = 400, headers = defaultHeaders ''application/json'',
           payload = errorBody ''Invalid skill name''\<rparr>,
      [NOT_FOUND ''/.well-known/skills/Invalid_Name/notes.txt'' (Some ''Invalid_Name'') None])"
    by code_simp
  have n3: "notifyThenRespond ?cfg
              (NOT_FOUND ''/.well-known/skills/git-workflow/a..b'' (Some ''git-workflow'')
                 (Some ''a..b''))
              400 ''Invalid file path'' [] =
     (Inr \<lparr>status = 400, headers = defaultHeaders ''application/json'',
           payload = errorBody ''Invalid file path''\<rparr>,
      [NOT_FOUND ''/.well-known/skills/git-workflow/a..b'' (Some ''git-workflow'')
         (Some ''a..b'')])"
    by code_simp
  have n4: "notifyThenRespond ?cfg
              (NOT_FOUND ''/.well-known/skills/Invalid_Name'' None None) 404 ''Not found'' [] =
     (Inr \<lparr>status = 404, headers = defaultHeaders ''application/json'',
           payload = errorBody ''Not found''\<rparr>,
      [NOT_FOUND ''/.well-known/skills/Invalid_Name'' None None])"
    by code_simp
  have a: "handler ?cfg testProvider
       (localRequest ''GET'' ''/.well-known/skills/Invalid_Name/SKILL.md'') [] =
     (Inr \<lparr>status = 400, headers = defaultHeaders ''application/json'',
           payload = errorBody ''Invalid skill name''\<rparr>,
      [NOT_FOUND ''/.well-known/skills/Invalid_Name/SKILL.md'' (Some ''Invalid_Name'') None])"
    using invalid_segment_responses[OF m[of "''/.well-known/skills/Invalid_Name/SKILL.md''"], where seg = "''Invalid_Name''"
        and rest = "''SKILL.md''"
        and cfg = ?cfg and prov = testProvider and s = "[]"] r1 v n1
    by (simp add: u)
  have b: "handler ?cfg testProvider
       (localRequest ''GET'' ''/.well-known/skills/Invalid_Name/notes.txt'') [] =
     (Inr \<lparr>status = 400, headers = defaultHeaders ''application/json'',
           payload = errorBody ''Invalid skill name''\<rparr>,
      [NOT_FOUND ''/.well-known/skills/Invalid_Name/notes.txt'' (Some ''Invalid_Name'') None])"
    using invalid_segment_responses[OF m[of "''/.well-known/skills/Invalid_Name/notes.txt''"], where seg = "''Invalid_Name''"
        and rest = "''notes.txt''"
        and cfg = ?cfg and prov = testProvider and s = "[]"] r2 v n2
    by (simp add: u)
  have c: "handler ?cfg testProvider
       (localRequest ''GET'' ''/.well-known/skills/git-workflow/a..b'') [] =
     (Inr \<lparr>status = 400, headers = defaultHeaders ''application/json'',
           payload = errorBody ''Invalid file path''\<rparr>,
      [NOT_FOUND ''/.well-known/skills/git-workflow/a..b'' (Some ''git-workflow'')
         (Some ''a..b'')])"
    using invalid_segment_responses[OF m[of "''/.well-known/skills/git-workflow/a..b''"], where seg = "''git-workflow''"
        and rest = "''a..b''"
        and cfg = ?cfg and prov = testProvider and s = "[]"] r3 v n3
    by (simp add: u)
  have d: "handler ?cfg testProvider
       (localRequest ''GET'' ''/.well-known/skills/Invalid_Name'') [] =
     (Inr \<lparr>status = 404, headers = defaultHeaders ''application/json'',
           payload = errorBody ''Not found''\<rparr>,
      [NOT_FOUND ''/.well-known/skills/Invalid_Name'' None None])"
    using invalid_segment_responses[OF m[of "''/.well-known/skills/Invalid_Name''"], where seg = "''Invalid_Name''"
        and rest = "[]"
        and cfg = ?cfg and prov = testProvider and s = "[]"] r4 v n4
    by (simp add: u)
  from a b c d show ?thesis by blast
qed

text \<open>
  C3, the claim as written fails: it promises the 400 response whatever the sink does.
  With a sink that throws, the request \<open>GET /.well-known/skills/Invalid_Name/SKILL.md\<close>
  is not answered with 400: the handler raises what the sink threw. The same holds for
  the generic 404 of a single invalid segment.
\<close>

theorem invalid_segment_counterexample:
  "handler (default_config\<lparr>onEvent := Some throwingSink\<rparr>) testProvider
       (localRequest ''GET'' ''/.well-known/skills/Invalid_Name/SKILL.md'') [] =
     (Inl (ErrorObject ''sink''),
      [NOT_FOUND ''/.well-known/skills/Invalid_Name/SKILL.md'' (Some ''Invalid_Name'') None]) \<and>
   handler (default_config\<lparr>onEvent := Some throwingSink\<rparr>) testProvider
       (localRequest ''GET'' ''/.well-known/skills/Invalid_Name'') [] =
     (Inl (ErrorObject ''sink''), [NOT_FOUND ''/.well-known/skills/Invalid_Name'' None None])"
  by (intro conjI; code_simp)

section \<open>Provider failures\<close>




section \<open>The skill document\<close>

text \<open>
  C8. For a \<open>GET\<close> request whose relative path is \<open>/{name}/SKILL.md\<close> with a valid
  name, and a provider that returns its skills.

  When a skill of that name is among them, the first such skill is served: the sink,
  if any, is called with the event \<open>SKILL_REQUESTED\<close> carrying the name, and when the
  call returns (and \<^verbatim>\<open>createHeaders\<close> accepts the configuration) the response is 200
  with the content type \<open>text/markdown; charset=utf-8\<close> and the body
  \<open>"---\nname: " + name + "\ndescription: " + description + "\n---\n\n" + body\<close>.

  When no skill has that name, the sink, if any, is called with the event \<open>NOT_FOUND\<close>
  carrying the name, and when the call returns the response is 404 with the JSON body
  \<open>{error: "Skill not found"}\<close>.

  In both cases, when the call of the sink throws, the response is neither: what the
  sink threw is caught as a failure of the request, reported with an \<open>ERROR\<close> event and
  answered with 500 (or the handler raises, when the sink throws again).
\<close>

theorem skill_document_response:
  assumes "toUpperCase (req_method req) = ''GET''"
    and "relativePath cfg (url_pathname req) = ''/'' @ n @ ''/SKILL.md''"
    and "isValidSkillName n"
    and "getSkills prov = Inr skills"
  shows
   "(n \<in> name ` set skills \<longrightarrow>
      (\<exists>sk. find (\<lambda>x. name x = n) skills = Some sk \<and> name sk = n \<and>
         (\<forall>s' hs. sinkCall cfg (SKILL_REQUESTED (url_pathname req) n) s = (None, s') \<and>
                  createHeaders cfg ''text/markdown; charset=utf-8'' = Inr hs \<longrightarrow>
            handler cfg prov req s =
              (Inr \<lparr>status = 200, headers = hs,
                    payload = Text (''---'' @ [CHR 0x0A] @ ''name: '' @ n @ [CHR 0x0A]
                                    @ ''description: '' @ description sk @ [CHR 0x0A]
                                    @ ''---'' @ [CHR 0x0A, CHR 0x0A] @ body sk)\<rparr>, s') \<and>
            headers_get hs ''Content-Type'' = Some ''text/markdown; charset=utf-8'') \<and>
         (\<forall>x s'. sinkCall cfg (SKILL_REQUESTED (url_pathname req) n) s = (Some x, s') \<longrightarrow>
            handler cfg prov req s =
              (case asError x of
                 Inl t \<Rightarrow> (Inl t, s')
               | Inr er \<Rightarrow>
                   notifyThenRespond cfg
                     (ERROR (url_pathname req) er (Some [(''skillName'', n)]))
                     500 ''Internal server error'' s')))) \<and>
    (n \<notin> name ` set skills \<longrightarrow>
       (\<forall>s' hs. sinkCall cfg (NOT_FOUND (url_pathname req) (Some n) None) s = (None, s') \<and>
                createHeaders cfg ''application/json'' = Inr hs \<longrightarrow>
          handler cfg prov req s =
            (Inr \<lparr>status = 404, headers = hs, payload = errorBody ''Skill not found''\<rparr>, s')) \<and>
       (\<forall>x s'. sinkCall cfg (NOT_FOUND (url_pathname req) (Some n) None) s = (Some x, s') \<longrightarrow>
          handler cfg prov req s =
            (case asError x of
               Inl t \<Rightarrow> (Inl t, s')
             | Inr er \<Rightarrow>
                 notifyThenRespond cfg
                   (ERROR (url_pathname req) er (Some [(''skillName'', n)]))
                   500 ''Internal server error'' s')))"
proof -
  have route: "handler cfg prov req s = serveSkillMd cfg prov n (url_pathname req) s"
    by (rule route_skillMd[OF disjI1[OF assms(1)] assms(2,3)])
  have md: "normalizeHeaderValue ''text/markdown; charset=utf-8'' = ''text/markdown; charset=utf-8''"
    by code_simp
  show ?thesis
  proof (intro conjI impI)
    assume "n \<in> name ` set skills"
    then obtain sk where sk: "find (\<lambda>x. name x = n) skills = Some sk" "name sk = n"
      using find_name[of n skills] by blast
    have body: "reconstructSkillMd sk =
        ''---'' @ [CHR 0x0A] @ ''name: '' @ n @ [CHR 0x0A]
          @ ''description: '' @ description sk @ [CHR 0x0A]
          @ ''---'' @ [CHR 0x0A, CHR 0x0A] @ body sk"
      using sk(2) by (simp add: reconstructSkillMd_def newline_def Let_def)
    have ok: "\<forall>s' hs. sinkCall cfg (SKILL_REQUESTED (url_pathname req) n) s = (None, s') \<and>
                  createHeaders cfg ''text/markdown; charset=utf-8'' = Inr hs \<longrightarrow>
            handler cfg prov req s =
              (Inr \<lparr>status = 200, headers = hs,
                    payload = Text (''---'' @ [CHR 0x0A] @ ''name: '' @ n @ [CHR 0x0A]
                                    @ ''description: '' @ description sk @ [CHR 0x0A]
                                    @ ''---'' @ [CHR 0x0A, CHR 0x0A] @ body sk)\<rparr>, s') \<and>
            headers_get hs ''Content-Type'' = Some ''text/markdown; charset=utf-8''"
      unfolding route body[symmetric]
      using serveSkillMd_found(1)[OF assms(4) sk(1), of cfg "url_pathname req" s]
        createHeaders_claimed(2)[of cfg "''text/markdown; charset=utf-8''"] md
      by fastforce
    have thrown: "\<forall>x s'. sinkCall cfg (SKILL_REQUESTED (url_pathname req) n) s = (Some x, s') \<longrightarrow>
            handler cfg prov req s =
              (case asError x of
                 Inl t \<Rightarrow> (Inl t, s')
               | Inr er \<Rightarrow>
                   notifyThenRespond cfg
                     (ERROR (url_pathname req) er (Some [(''skillName'', n)]))
                     500 ''Internal server error'' s')"
      unfolding route catchBlock_notify[symmetric]
      using serveSkillMd_found(2)[OF assms(4) sk(1), of cfg "url_pathname req" s] by blast
    from sk ok thrown
    show "\<exists>sk. find (\<lambda>x. name x = n) skills = Some sk \<and> name sk = n \<and>
         (\<forall>s' hs. sinkCall cfg (SKILL_REQUESTED (url_pathname req) n) s = (None, s') \<and>
                  createHeaders cfg ''text/markdown; charset=utf-8'' = Inr hs \<longrightarrow>
            handler cfg prov req s =
              (Inr \<lparr>status = 200, headers = hs,
                    payload = Text (''---'' @ [CHR 0x0A] @ ''name: '' @ n @ [CHR 0x0A]
                                    @ ''description: '' @ description sk @ [CHR 0x0A]
                                    @ ''---'' @ [CHR 0x0A, CHR 0x0A] @ body sk)\<rparr>, s') \<and>
            headers_get hs ''Content-Type'' = Some ''text/markdown; charset=utf-8'') \<and>
         (\<forall>x s'. sinkCall cfg (SKILL_REQUESTED (url_pathname req) n) s = (Some x, s') \<longrightarrow>
            handler cfg prov req s =
              (case asError x of
                 Inl t \<Rightarrow> (Inl t, s')
               | Inr er \<Rightarrow>
                   notifyThenRespond cfg
                     (ERROR (url_pathname req) er (Some [(''skillName'', n)]))
                     500 ''Internal server error'' s'))"
      by blast
  next
    assume "n \<notin> name ` set skills"
    then have none: "find (\<lambda>x. name x = n) skills = None" using find_name[of n skills] by blast
    show "\<forall>s' hs. sinkCall cfg (NOT_FOUND (url_pathname req) (Some n) None) s = (None, s') \<and>
                createHeaders cfg ''application/json'' = Inr hs \<longrightarrow>
          handler cfg prov req s =
            (Inr \<lparr>status = 404, headers = hs, payload = errorBody ''Skill not found''\<rparr>, s')"
      unfolding route
      using serveSkillMd_missing(1)[OF assms(4) none, of cfg "url_pathname req" s] by blast
  next
    assume "n \<notin> name ` set skills"
    then have none: "find (\<lambda>x. name x = n) skills = None" using find_name[of n skills] by blast
    show "\<forall>x s'. sinkCall cfg (NOT_FOUND (url_pathname req) (Some n) None) s = (Some x, s') \<longrightarrow>
          handler cfg prov req s =
            (case asError x of
               Inl t \<Rightarrow> (Inl t, s')
             | Inr er \<Rightarrow>
                 notifyThenRespond cfg
                   (ERROR (url_pathname req) er (Some [(''skillName'', n)]))
                   500 ''Internal server error'' s')"
      unfolding route catchBlock_notify[symmetric]
      using serveSkillMd_missing(2)[OF assms(4) none, of cfg "url_pathname req" s] by blast
  qed
qed

theorem skill_document_response_witness:
  "handler (default_config\<lparr>onEvent := Some recordingSink\<rparr>) testProvider
       (localRequest ''GET'' ''/.well-known/skills/git-workflow/SKILL.md'') [] =
     (Inr \<lparr>status = 200, headers = defaultHeaders ''text/markdown; charset=utf-8'',
           payload = Text (''---'' @ [CHR 0x0A] @ ''name: git-workflow'' @ [CHR 0x0A]
                           @ ''description: Follow team Git conventions for branching and commits.''
                           @ [CHR 0x0A] @ ''---'' @ [CHR 0x0A, CHR 0x0A] @ ''# Git Workflow'')\<rparr>,
      [SKILL_REQUESTED ''/.well-known/skills/git-workflow/SKILL.md'' ''git-workflow'']) \<and>
   handler (default_config\<lparr>onEvent := Some recordingSink\<rparr>) testProvider
       (localRequest ''GET'' ''/.well-known/skills/unknown-skill/SKILL.md'') [] =
     (Inr \<lparr>status = 404, headers = defaultHeaders ''application/json'',
           payload = errorBody ''Skill not found''\<rparr>,
      [NOT_FOUND ''/.well-known/skills/unknown-skill/SKILL.md'' (Some ''unknown-skill'') None])"
proof -
  let ?cfg = "default_config\<lparr>onEvent := Some recordingSink\<rparr>"
  let ?found = "localRequest ''GET'' ''/.well-known/skills/git-workflow/SKILL.md''"
  let ?missing = "localRequest ''GET'' ''/.well-known/skills/unknown-skill/SKILL.md''"
  have m: "toUpperCase (req_method (localRequest ''GET'' p)) = ''GET''" for p by code_simp
  have u: "url_pathname (localRequest ''GET'' p) = p" for p by (simp add: localRequest_def)
  have r1: "relativePath ?cfg (url_pathname ?found) = ''/'' @ ''git-workflow'' @ ''/SKILL.md''"
    by code_simp
  have r2: "relativePath ?cfg (url_pathname ?missing) = ''/'' @ ''unknown-skill'' @ ''/SKILL.md''"
    by code_simp
  have v: "isValidSkillName ''git-workflow''" "isValidSkillName ''unknown-skill''"
    by code_simp+
  have p: "getSkills testProvider = Inr [gitWorkflow]"
    by (simp add: testProvider_def staticSkills_def)
  have i: "''git-workflow'' \<in> name ` set [gitWorkflow]"
    "''unknown-skill'' \<notin> name ` set [gitWorkflow]"
    by (simp_all add: gitWorkflow_def)
  have c1: "sinkCall ?cfg (SKILL_REQUESTED (url_pathname ?found) ''git-workflow'') []
              = (None, [SKILL_REQUESTED ''/.well-known/skills/git-workflow/SKILL.md''
                          ''git-workflow''])"
    by code_simp
  have c2: "sinkCall ?cfg (NOT_FOUND (url_pathname ?missing) (Some ''unknown-skill'') None) []
              = (None, [NOT_FOUND ''/.well-known/skills/unknown-skill/SKILL.md''
                          (Some ''unknown-skill'') None])"
    by code_simp
  have h1: "createHeaders ?cfg ''text/markdown; charset=utf-8''
              = Inr (defaultHeaders ''text/markdown; charset=utf-8'')"
    by code_simp
  have h2: "createHeaders ?cfg ''application/json'' = Inr (defaultHeaders ''application/json'')"
    by code_simp
  from skill_document_response[OF m r1 v(1) p, where s = "[]"] i(1)
  obtain sk where sk: "find (\<lambda>x. name x = ''git-workflow'') [gitWorkflow] = Some sk"
    and h: "\<forall>s' hs. sinkCall ?cfg (SKILL_REQUESTED (url_pathname ?found) ''git-workflow'') []
                        = (None, s') \<and>
                  createHeaders ?cfg ''text/markdown; charset=utf-8'' = Inr hs \<longrightarrow>
            handler ?cfg testProvider ?found [] =
              (Inr \<lparr>status = 200, headers = hs,
                    payload = Text (''---'' @ [CHR 0x0A] @ ''name: '' @ ''git-workflow'' @ [CHR 0x0A]
                                    @ ''description: '' @ description sk @ [CHR 0x0A]
                                    @ ''---'' @ [CHR 0x0A, CHR 0x0A] @ body sk)\<rparr>, s') \<and>
            headers_get hs ''Content-Type'' = Some ''text/markdown; charset=utf-8''"
    by blast
  from sk have "sk = gitWorkflow" by (simp add: gitWorkflow_def)
  with h c1 h1 have a: "handler ?cfg testProvider ?found [] =
     (Inr \<lparr>status = 200, headers = defaultHeaders ''text/markdown; charset=utf-8'',
           payload = Text (''---'' @ [CHR 0x0A] @ ''name: git-workflow'' @ [CHR 0x0A]
                           @ ''description: Follow team Git conventions for branching and commits.''
                           @ [CHR 0x0A] @ ''---'' @ [CHR 0x0A, CHR 0x0A] @ ''# Git Workflow'')\<rparr>,
      [SKILL_REQUESTED ''/.well-known/skills/git-workflow/SKILL.md'' ''git-workflow''])"
    by (simp add: gitWorkflow_def)
  from skill_document_response[OF m r2 v(2) p, where s = "[]"] i(2) c2 h2
  have b: "handler ?cfg testProvider ?missing [] =
     (Inr \<lparr>status = 404, headers = defaultHeaders ''application/json'',
           payload = errorBody ''Skill not found''\<rparr>,
      [NOT_FOUND ''/.well-known/skills/unknown-skill/SKILL.md'' (Some ''unknown-skill'') None])"
    by blast
  from a b show ?thesis by blast
qed

text \<open>
  C8, the claim as written fails: it promises the 200 and the 404 whatever the sink
  does. With a sink that throws on every event but \<open>ERROR\<close>, the request for the
  document of an existing skill is answered with 500 and the body
  \<open>{error: "Internal server error"}\<close>, and so is the request for the document of a
  skill that does not exist.
\<close>

theorem skill_document_counterexample:
  "handler (default_config\<lparr>onEvent := Some pickySink\<rparr>) testProvider
       (localRequest ''GET'' ''/.well-known/skills/git-workflow/SKILL.md'') [] =
     (Inr \<lparr>status = 500, headers = defaultHeaders ''application/json'',
           payload = errorBody ''Internal server error''\<rparr>,
      [SKILL_REQUESTED ''/.well-known/skills/git-workflow/SKILL.md'' ''git-workflow'',
       ERROR ''/.well-known/skills/git-workflow/SKILL.md'' (ErrorObject ''sink'')
         (Some [(''skillName'', ''git-workflow'')])]) \<and>
   handler (default_config\<lparr>onEvent := Some pickySink\<rparr>) testProvider
       (localRequest ''GET'' ''/.well-known/skills/unknown-skill/SKILL.md'') [] =
     (Inr \<lparr>status = 500, headers = defaultHeaders ''application/json'',
           payload = errorBody ''Internal server error''\<rparr>,
      [NOT_FOUND ''/.well-known/skills/unknown-skill/SKILL.md'' (Some ''unknown-skill'') None,
       ERROR ''/.well-known/skills/unknown-skill/SKILL.md'' (ErrorObject ''sink'')
         (Some [(''skillName'', ''unknown-skill'')])])"
  by (intro conjI; code_simp)

section \<open>The base path\<close>

text \<open>
  C10. Cutting off the base path is a test on characters, not on path segments:
  whatever follows the base path (one trailing slash of the configured value removed)
  is the relative path, once it is given a leading slash and loses a trailing one. So
  a \<open>GET\<close> request for the base path immediately followed by a valid skill name has
  that name as its relative path and is routed as the redirect to that skill's
  \<open>SKILL.md\<close>: the handler returns the 302 response whose \<open>Location\<close> is the URL that the
  platform resolves \<open>{base path}/{name}/SKILL.md\<close> to against the origin of the request,
  and raises what that resolution throws. With the base path \<open>/.well-known/skills\<close>,
  the path \<open>/.well-known/skillsfoo\<close> has the relative path \<open>/foo\<close>, and on
  \<open>http://localhost\<close> it is redirected to
  \<open>http://localhost/.well-known/skills/foo/SKILL.md\<close>.
\<close>

theorem basePath_prefix_is_raw:
  "relativePath cfg (normalizedBasePath cfg @ rest) =
     (let r2 = (if startsWith rest ''/'' then rest else ''/'' @ rest)
      in if length r2 > 1 \<and> endsWith r2 ''/'' then butlast r2 else r2) \<and>
   (isValidSkillName n \<and> toUpperCase (req_method req) = ''GET'' \<and>
    url_pathname req = normalizedBasePath cfg @ n \<longrightarrow>
      relativePath cfg (url_pathname req) = ''/'' @ n \<and>
      handler cfg prov req s =
        (createRedirect req (normalizedBasePath cfg @ ''/'' @ n @ ''/SKILL.md''), s) \<and>
      (\<forall>u. url_resolve req (normalizedBasePath cfg @ ''/'' @ n @ ''/SKILL.md'') = Inr u \<and>
           headerValue u = Inr u \<longrightarrow>
         handler cfg prov req s =
           (Inr \<lparr>status = 302, headers = [(''Location'', u)], payload = NoBody\<rparr>, s)) \<and>
      (\<forall>e. url_resolve req (normalizedBasePath cfg @ ''/'' @ n @ ''/SKILL.md'') = Inl e \<longrightarrow>
         handler cfg prov req s = (Inl e, s))) \<and>
   normalizedBasePath (default_config\<lparr>basePath := ''/.well-known/skills/''\<rparr>)
     = ''/.well-known/skills'' \<and>
   normalizedBasePath default_config = ''/.well-known/skills'' \<and>
   relativePath default_config ''/.well-known/skillsfoo'' = ''/foo'' \<and>
   handler default_config prov (localRequest ''GET'' ''/.well-known/skillsfoo'') s =
     (Inr \<lparr>status = 302,
           headers = [(''Location'', ''http://localhost/.well-known/skills/foo/SKILL.md'')],
           payload = NoBody\<rparr>, s)"
proof -
  have strip: "relativePath cfg (normalizedBasePath cfg @ rest) =
     (let r2 = (if startsWith rest ''/'' then rest else ''/'' @ rest)
      in if length r2 > 1 \<and> endsWith r2 ''/'' then butlast r2 else r2)" for rest and cfg :: "'x config"
    by (simp add: relativePath_def startsWith_def Let_def)
  have rel: "relativePath cfg (url_pathname req) = ''/'' @ n"
    if v: "isValidSkillName n" and u: "url_pathname req = normalizedBasePath cfg @ n"
    for n req and cfg :: "'x config"
  proof -
    note c = valid_name_chars[OF v]
    have s: "\<not> startsWith n ''/''" using c(1,2) by (cases n) (auto simp: startsWith_def)
    have e: "\<not> endsWith (''/'' @ n) ''/''"
      using c(1,4) unfolding endsWith_char by simp
    show ?thesis unfolding u strip using s e by (simp add: Let_def)
  qed
  have redirect: "handler cfg prov req s =
        (createRedirect req (normalizedBasePath cfg @ ''/'' @ n @ ''/SKILL.md''), s)"
    if v: "isValidSkillName n" and g: "toUpperCase (req_method req) = ''GET''"
      and u: "url_pathname req = normalizedBasePath cfg @ n"
    for n req s and cfg :: "'x config" and prov :: "'y provider"
    by (rule route_skillDir[OF disjI1[OF g] rel[OF v u] v])
  have foo: "isValidSkillName ''foo''" by code_simp
  have nb: "normalizedBasePath (default_config :: 'x config) = ''/.well-known/skills''"
    by (simp add: normalizedBasePath_def default_config_def endsWith_def)
  have loc: "createRedirect (localRequest ''GET'' ''/.well-known/skillsfoo'')
               ''/.well-known/skills/foo/SKILL.md''
             = Inr \<lparr>status = 302,
                    headers = [(''Location'', ''http://localhost/.well-known/skills/foo/SKILL.md'')],
                    payload = NoBody\<rparr>"
    by code_simp
  have ex: "handler default_config prov (localRequest ''GET'' ''/.well-known/skillsfoo'') s =
     (Inr \<lparr>status = 302,
           headers = [(''Location'', ''http://localhost/.well-known/skills/foo/SKILL.md'')],
           payload = NoBody\<rparr>, s)"
    using redirect[of "''foo''" "localRequest ''GET'' ''/.well-known/skillsfoo''"
        default_config prov s, OF foo] loc
    by (simp add: nb localRequest_def toUpperCase_def upperChar_def charCode_def)
  have rf: "relativePath default_config ''/.well-known/skillsfoo'' = ''/foo''"
    using strip[of default_config "''foo''"]
    by (simp add: nb startsWith_def endsWith_def Let_def)
  have nb2: "normalizedBasePath (default_config\<lparr>basePath := ''/.well-known/skills/''\<rparr>)
     = ''/.well-known/skills''"
    by (simp add: normalizedBasePath_def endsWith_def)
  show ?thesis
  proof (intro conjI impI allI)
    assume a: "isValidSkillName n \<and> toUpperCase (req_method req) = ''GET'' \<and>
      url_pathname req = normalizedBasePath cfg @ n"
    then show "relativePath cfg (url_pathname req) = ''/'' @ n"
      using rel[of n req cfg] by blast
    from a show "handler cfg prov req s =
        (createRedirect req (normalizedBasePath cfg @ ''/'' @ n @ ''/SKILL.md''), s)"
      using redirect[of n req cfg prov s] by blast
    fix u
    assume "url_resolve req (normalizedBasePath cfg @ ''/'' @ n @ ''/SKILL.md'') = Inr u \<and>
           headerValue u = Inr u"
    then show "handler cfg prov req s =
           (Inr \<lparr>status = 302, headers = [(''Location'', u)], payload = NoBody\<rparr>, s)"
      using a redirect[of n req cfg prov s] by (simp add: createRedirect_def)
  next
    fix e
    assume a: "isValidSkillName n \<and> toUpperCase (req_method req) = ''GET'' \<and>
      url_pathname req = normalizedBasePath cfg @ n"
      and "url_resolve req (normalizedBasePath cfg @ ''/'' @ n @ ''/SKILL.md'') = Inl e"
    then show "handler cfg prov req s = (Inl e, s)"
      using redirect[of n req cfg prov s] by (simp add: createRedirect_def)
  qed (rule strip nb nb2 rf ex)+
qed

theorem basePath_prefix_is_raw_witness:
  "isValidSkillName ''git-workflow'' \<and>
   relativePath (default_config\<lparr>basePath := ''/api/''\<rparr> :: unit config) ''/apigit-workflow''
     = ''/git-workflow'' \<and>
   handler (default_config\<lparr>basePath := ''/api/''\<rparr>) testProvider
       (localRequest ''GET'' ''/apigit-workflow'') () =
     (Inr \<lparr>status = 302,
           headers = [(''Location'', ''http://localhost/api/git-workflow/SKILL.md'')],
           payload = NoBody\<rparr>, ())"
proof -
  let ?cfg = "default_config\<lparr>basePath := ''/api/''\<rparr> :: unit config"
  let ?req = "localRequest ''GET'' ''/apigit-workflow''"
  have m: "toUpperCase (req_method ?req) = ''GET''" by code_simp
  have v: "isValidSkillName ''git-workflow''" by code_simp
  have n: "normalizedBasePath ?cfg = ''/api''" by code_simp
  have u: "url_pathname ?req = normalizedBasePath ?cfg @ ''git-workflow''"
    unfolding n by (simp add: localRequest_def)
  have p: "url_pathname ?req = ''/apigit-workflow''" by (simp add: localRequest_def)
  have l: "url_resolve ?req (normalizedBasePath ?cfg @ ''/'' @ ''git-workflow'' @ ''/SKILL.md'')
             = Inr ''http://localhost/api/git-workflow/SKILL.md''"
    unfolding n by code_simp
  have h: "headerValue ''http://localhost/api/git-workflow/SKILL.md''
             = Inr ''http://localhost/api/git-workflow/SKILL.md''"
    by code_simp
  from basePath_prefix_is_raw[where cfg = ?cfg and n = "''git-workflow''" and req = ?req
      and prov = testProvider and s = "()"] v m u l h
  have "relativePath ?cfg (url_pathname ?req) = ''/'' @ ''git-workflow''"
    and "handler ?cfg testProvider ?req () =
     (Inr \<lparr>status = 302,
           headers = [(''Location'', ''http://localhost/api/git-workflow/SKILL.md'')],
           payload = NoBody\<rparr>, ())"
    by blast+
  with v show ?thesis by (simp add: p)
qed

section \<open>Content types\<close>

lemma split_on_dotless: "d \<notin> set s \<Longrightarrow> split_on d s = [s]"
  by (induction s) auto

lemma split_on_nonempty: "split_on d s \<noteq> []"
  by (cases s) auto

lemma split_on_single: "tl (split_on d s) = [] \<longleftrightarrow> d \<notin> set s"
  by (induction s) (auto simp: split_on_nonempty)

lemma last_split_on: "last (split_on d s) = rev (takeWhile (\<lambda>c. c \<noteq> d) (rev s))"
proof (induction s)
  case Nil
  then show ?case by simp
next
  case (Cons c s)
  show ?case
  proof (cases "c = d")
    case True
    then show ?thesis
      using Cons.IH by (simp add: split_on_nonempty takeWhile_append takeWhile_id list_all_iff)
  next
    case False
    show ?thesis
    proof (cases "d \<in> set s")
      case True
      then have "tl (split_on d s) \<noteq> []" by (simp add: split_on_single)
      then have "last (split_on d (c # s)) = last (split_on d s)"
        using False by (cases "split_on d s") auto
      then show ?thesis using Cons.IH True by (auto simp: takeWhile_append)
    next
      case no: False
      then show ?thesis using False
        by (simp add: split_on_dotless takeWhile_append takeWhile_id list_all_iff)
    qed
  qed
qed

lemma getContentType_lookup:
  "getContentType filePath =
     (case contentTypes_get (toLowerCase (rev (takeWhile (\<lambda>c. c \<noteq> CHR ''.'') (rev filePath)))) of
        None \<Rightarrow> Str ''text/plain; charset=utf-8'' | Some t \<Rightarrow> t)"
proof -
  obtain p ps where "split_on (CHR ''.'') filePath = p # ps"
    using split_on_nonempty[of "CHR ''.''" filePath] by (cases "split_on (CHR ''.'') filePath") auto
  then show ?thesis
    using last_split_on[of "CHR ''.''" filePath] by (simp add: getContentType_def)
qed


text \<open>
  So the key of the lookup is what follows the last dot, in lower case, and the whole
  path when it has no dot.
\<close>

lemma getContentType_without_dot:
  assumes "CHR ''.'' \<notin> set filePath"
  shows "getContentType filePath =
           (case contentTypes_get (toLowerCase filePath) of
              None \<Rightarrow> Str ''text/plain; charset=utf-8'' | Some t \<Rightarrow> t)"
  by (simp add: getContentType_def split_on_dotless[OF assms])

text \<open>
  C5 does not hold of the code. A path with no dot at all is looked up as if it were
  an extension, so the file \<open>md\<close> is served as markdown and the file \<open>json\<close> as JSON,
  not as plain text. And an extension that names a member the table inherits from
  \<^verbatim>\<open>Object.prototype\<close>, such as \<open>constructor\<close>, is not unknown to the lookup: the
  result is that member, not a string, and the header carries its printed form.
\<close>

theorem getContentType_dotless:
  "getContentType ''md'' = Str ''text/markdown; charset=utf-8'' \<and>
   getContentType ''json'' = Str ''application/json'' \<and>
   getContentType ''x.constructor'' = Inherited ''constructor'' \<and>
   toHeaderString (getContentType ''x.constructor'') = ''function Object() { [native code] }''"
  by code_simp


end
